theory Spec2Isabelle
  imports Main "HOL-Library.Sublist"
begin

section \<open>The mod manager: data\<close>

text \<open>
  The class \<open>SteamCmdManager\<close> (steam_cmd_manager.js) works on the file system, on the
  network, on child processes, on a timer and on the console. The model passes an explicit
  \<open>world\<close> through every method and reads the answers of the outside from an
  \<open>env\<close>: for each kind of call a script gives the answer to the call number \<open>i\<close>
  of that kind. A promise that resolves with \<open>v\<close> is the value \<open>Inr v\<close>, a promise that
  rejects (or a \<open>throw\<close>) with an error of message \<open>e\<close> is \<open>Inl e\<close>.
  Console output is not modelled; calls of \<open>errorLogger.logError\<close> are. The world
  also keeps the calls made so far: requests, processes, timers, copies, and the entries
  into the two probes (\<open>classifier_calls\<close>) and into \<open>downloadMod\<close> (\<open>driver_calls\<close>).
  A path is the list of its components; the Steam ids the methods join to a directory are
  plain names (digits), so \<open>path.join\<close> appends.
\<close>

type_synonym path = "string list"

text \<open>A mod is the array \<open>[modId, steamId, modName]\<close>.\<close>

type_synonym moditem = "string \<times> string \<times> string"

text \<open>
  What a probe of a path finds. \<open>NoEntry\<close> and \<open>IOError\<close> both make \<open>fs.statSync\<close>
  throw and \<open>fs.existsSync\<close> answer false.
\<close>

datatype node = Dir | File | NoEntry | IOError

text \<open>
  The message templates of the source (they are Russian text there), by the line of
  steam_cmd_manager.js that builds them; \<open>Text\<close> is the message of an error object that
  Node or the child process made.
\<close>

datatype msg =
    Text string
  | IdNotExtracted string
  | NotInSearchResults string
  | SearchError string string
  | RequestFailed string
  | CopyError string string string
  | DownloadError string string string
  | NotFoundAfterDownload string string
  | DownloadFailed string string
  | AlreadyInstalled
  | CancelledByUser
  | GeneralDownloadError

record log_entry =
  log_modId :: string
  log_modName :: string
  log_error :: msg
  log_details :: string

datatype probe = ProbeInstalled string string | ProbeSteamCmd string

datatype audit_file = MissingModsFile | NotFoundModsFile

record config =
  steamCmdPath :: path
  rimworldAppId :: string
  modsDirectory :: path
  steamLogin :: string

text \<open>The result of \<open>https.get\<close>: the request's \<open>error\<close> event, or the body at \<open>end\<close>.\<close>

datatype http_outcome = RequestError string | ResponseEnd string

text \<open>
  What the callback of \<open>exec\<close> receives, and the file system as the callback finds it
  (it stays so through the two seconds of the timer).
\<close>

record exec_outcome =
  exec_error :: "string option"
  stdout :: string
  stderr :: string
  fs_after :: "path \<Rightarrow> node"

text \<open>
  Lines 68-69 put the name into a regular expression as it is. For a name without a
  character that has a meaning there, the model computes the match (\<open>match_block\<close>
  below). For a name with such a character the pattern is not the text of the name, and
  how it is read is the engine's: \<open>engine_search modName data\<close> is \<open>Inl e\<close> when
  \<open>new RegExp\<close> throws a SyntaxError of message \<open>e\<close>, \<open>Inr None\<close> when
  \<open>data.match\<close> is null, and \<open>Inr (Some b)\<close> when \<open>modBlockMatch[0]\<close> is \<open>b\<close>.
\<close>

record env =
  http_script :: "nat \<Rightarrow> http_outcome"
  engine_search :: "string \<Rightarrow> string \<Rightarrow> string + string option"
  exec_script :: "nat \<Rightarrow> exec_outcome"
  mkdir_script :: "nat \<Rightarrow> string option"
  cp_script :: "nat \<Rightarrow> string option"
  write_script :: "nat \<Rightarrow> string option"
  answer :: string

record world =
  fs :: "path \<Rightarrow> node"
  requests :: "string list"
  classifier_calls :: "probe list"
  driver_calls :: "moditem list"
  mkdirs :: "path list"
  copies :: "(path \<times> path) list"
  execs :: "string list"
  timers :: "nat list"
  errlog :: "log_entry list"
  audit :: "audit_file \<Rightarrow> moditem list option"
  writes :: nat
  prompts :: nat

record outcome =
  out_id :: string
  out_name :: string
  success :: bool
  skipped :: "bool option"
  reason :: "msg option"
  error :: "msg option"

record report =
  rep_success :: bool
  results :: "outcome list"

section \<open>The outside\<close>

definition steamCmdDir :: "config \<Rightarrow> path" where
  "steamCmdDir c = butlast (steamCmdPath c)"

definition workshopDir :: "config \<Rightarrow> path" where
  "workshopDir c = steamCmdDir c @ [''steamapps'', ''workshop'', ''content'', rimworldAppId c]"

definition statSync :: "world \<Rightarrow> path \<Rightarrow> string + node" where
  "statSync w p =
     (case fs w p of
        Dir \<Rightarrow> Inr Dir
      | File \<Rightarrow> Inr File
      | NoEntry \<Rightarrow> Inl ''ENOENT''
      | IOError \<Rightarrow> Inl ''EIO'')"

definition isDirectory :: "node \<Rightarrow> bool" where
  "isDirectory st = (st = Dir)"

definition existsSync :: "world \<Rightarrow> path \<Rightarrow> bool" where
  "existsSync w p = (fs w p = Dir \<or> fs w p = File)"

text \<open>\<open>fs.mkdirSync(p, {recursive: true})\<close>: throws, or \<open>p\<close> and its parents are directories.\<close>

definition mkdirSync :: "env \<Rightarrow> path \<Rightarrow> world \<Rightarrow> (string + unit) \<times> world" where
  "mkdirSync e p w =
     (case mkdir_script e (length (mkdirs w)) of
        Some err \<Rightarrow> (Inl err, w\<lparr>mkdirs := mkdirs w @ [p]\<rparr>)
      | None \<Rightarrow> (Inr (), w\<lparr>mkdirs := mkdirs w @ [p],
                             fs := (\<lambda>q. if prefix q p then Dir else fs w q)\<rparr>))"

text \<open>
  \<open>fs.cpSync(src, dst, {recursive: true})\<close>: throws, or every entry under \<open>src\<close> is at the
  same place under \<open>dst\<close> (what else was under \<open>dst\<close> stays).
\<close>

definition cpSync :: "env \<Rightarrow> path \<Rightarrow> path \<Rightarrow> world \<Rightarrow> (string + unit) \<times> world" where
  "cpSync e src dst w =
     (let w1 = w\<lparr>copies := copies w @ [(src, dst)]\<rparr> in
      if \<not> existsSync w src then (Inl ''ENOENT'', w1)
      else (case cp_script e (length (copies w)) of
              Some err \<Rightarrow> (Inl err, w1)
            | None \<Rightarrow>
                (Inr (), w1\<lparr>fs := (\<lambda>q. if prefix dst q \<and> existsSync w (src @ drop (length dst) q)
                                         then fs w (src @ drop (length dst) q) else fs w q)\<rparr>)))"

text \<open>
  \<open>exec(command, callback)\<close> with the command of line 191; of the command the model keeps
  the Steam id, the rest is the configuration.
\<close>

definition exec :: "env \<Rightarrow> string \<Rightarrow> world \<Rightarrow> exec_outcome \<times> world" where
  "exec e steamId w =
     (let out = exec_script e (length (execs w)) in
      (out, w\<lparr>execs := execs w @ [steamId], fs := fs_after out\<rparr>))"

definition setTimeout :: "nat \<Rightarrow> world \<Rightarrow> world" where
  "setTimeout ms w = w\<lparr>timers := timers w @ [ms]\<rparr>"

definition https_get :: "env \<Rightarrow> string \<Rightarrow> world \<Rightarrow> http_outcome \<times> world" where
  "https_get e modName w =
     (http_script e (length (requests w)), w\<lparr>requests := requests w @ [modName]\<rparr>)"

text \<open>\<open>fs.promises.writeFile\<close>: rejects, or the file holds the new content and nothing else.\<close>

definition writeFile :: "env \<Rightarrow> audit_file \<Rightarrow> moditem list \<Rightarrow> world \<Rightarrow> (msg + unit) \<times> world" where
  "writeFile e file mods w =
     (case write_script e (writes w) of
        Some err \<Rightarrow> (Inl (Text err), w\<lparr>writes := writes w + 1\<rparr>)
      | None \<Rightarrow> (Inr (), w\<lparr>writes := writes w + 1, audit := (audit w)(file := Some mods)\<rparr>))"

text \<open>\<open>readline.question\<close>: the line the user types.\<close>

definition question :: "env \<Rightarrow> world \<Rightarrow> string \<times> world" where
  "question e w = (answer e, w\<lparr>prompts := prompts w + 1\<rparr>)"

text \<open>\<open>errorLogger.logError(modId, modName, error, details = '')\<close> never throws.\<close>

definition logError :: "string \<Rightarrow> string \<Rightarrow> msg \<Rightarrow> string \<Rightarrow> world \<Rightarrow> world" where
  "logError modId modName err details w =
     w\<lparr>errlog := errlog w @
        [\<lparr>log_modId = modId, log_modName = modName, log_error = err, log_details = details\<rparr>]\<rparr>"

section \<open>Strings\<close>

text \<open>
  \<open>String.prototype.toLowerCase\<close> on the bytes of the UTF-8 text: the letters A to Z
  change, every other byte stays. The source compares the result only with \<open>'y'\<close> and with
  the lower-cased core names, and no character outside ASCII has a lower case made of the
  letters of these.
\<close>

definition toLowerCase_char :: "char \<Rightarrow> char" where
  "toLowerCase_char ch =
     (case map_of (zip ''ABCDEFGHIJKLMNOPQRSTUVWXYZ'' ''abcdefghijklmnopqrstuvwxyz'') ch of
        Some l \<Rightarrow> l
      | None \<Rightarrow> ch)"

definition toLowerCase :: "string \<Rightarrow> string" where
  "toLowerCase s = map toLowerCase_char s"

text \<open>\<open>s.includes(t)\<close>.\<close>

fun includes_str :: "string \<Rightarrow> string \<Rightarrow> bool" where
  "includes_str [] t = (t = [])"
| "includes_str (ch # cs) t = (prefix t (ch # cs) \<or> includes_str cs t)"

definition is_digit :: "char \<Rightarrow> bool" where
  "is_digit ch = (ch \<in> set ''0123456789'')"

text \<open>
  Line 73, \<open>block.match(/filedetails\/\?id=(\d+)/)\<close>: the first place where the literal is
  followed by a digit, and the digits there (\<open>urlMatch[1]\<close>).
\<close>

fun match_filedetails_id :: "string \<Rightarrow> string option" where
  "match_filedetails_id [] = None"
| "match_filedetails_id (ch # cs) =
     (if prefix ''filedetails/?id='' (ch # cs) \<and> takeWhile is_digit (drop 16 (ch # cs)) \<noteq> []
      then Some (takeWhile is_digit (drop 16 (ch # cs)))
      else match_filedetails_id cs)"

text \<open>
  \<open>encodeURIComponent\<close> (line 56) throws a URIError on a string with a surrogate that
  has no partner, and on no other string. A string of the model is the list of the bytes
  of its UTF-8 form, in which a pair of surrogates is one character of four bytes; a
  surrogate without partner, which UTF-8 proper does not have, is the three bytes that the
  same scheme gives it: ED, then a byte from A0 to BF, then one more.
\<close>

fun has_lone_surrogate :: "string \<Rightarrow> bool" where
  "has_lone_surrogate (a # b # cs) =
     ((a = CHR 0xED \<and> 160 \<le> (of_char b :: nat) \<and> (of_char b :: nat) \<le> 191)
      \<or> has_lone_surrogate (b # cs))"
| "has_lone_surrogate cs = False"

text \<open>
  The characters that have a meaning in a pattern (the SyntaxCharacter of the language):
  \<open>^ $ . * + ? ( ) [ ] { } |\<close> and the backslash. A name without them is a pattern
  that matches the name's own text and nothing else; line 69 reads it back through
  \<open>source\<close>, which writes a slash and a line end as their escapes and so changes no
  meaning.
\<close>

definition is_syntax_char :: "char \<Rightarrow> bool" where
  "is_syntax_char ch = (ch \<in> set (''^$.*+?()[]{}|'' @ [CHR 0x5C]))"

text \<open>The first place of \<open>t\<close> in \<open>s\<close>, counted from the start of \<open>s\<close>.\<close>

fun find_sub :: "string \<Rightarrow> string \<Rightarrow> nat option" where
  "find_sub t [] = (if t = [] then Some 0 else None)"
| "find_sub t (ch # cs) =
     (if prefix t (ch # cs) then Some 0 else map_option Suc (find_sub t cs))"

text \<open>
  The two literal parts of the patterns that hold a double quote: \<open>class="workshopItem"\<close>
  of line 69, and the title element of line 68 around the name.
\<close>

definition workshopItem_class :: string where
  "workshopItem_class = ''class='' @ [CHR 0x22] @ ''workshopItem'' @ [CHR 0x22]"

definition title_div :: "string \<Rightarrow> string" where
  "title_div modName =
     ''<div class='' @ [CHR 0x22] @ ''workshopItemTitle ellipsis'' @ [CHR 0x22] @ ''>''
       @ modName @ ''</div>''"

text \<open>
  The pattern of line 69 for a title that is plain text, tried at the start of \<open>s\<close>:
  \<open><div\<close>; \<open>[^>]*class="workshopItem"[^>]*>\<close>, that is, the tag runs to the first
  \<open>>\<close> and has the class before it; \<open>.*?\<close> and the title, that is, the first
  place of the title after the tag (the flag \<open>s\<close> lets the dot pass a line end);
  \<open>.*?</div>\<close>, the first \<open></div>\<close> after the title. If a later part finds no
  place after the first place of the part before it, it finds none after a later place
  of that either, so the lazy and the greedy choices leave no other match from this
  start. The result is the text matched, \<open>modBlockMatch[0]\<close>.
\<close>

definition block_at :: "string \<Rightarrow> string \<Rightarrow> string option" where
  "block_at title s =
     (if \<not> prefix ''<div'' s then None
      else
        (let tag = takeWhile (\<lambda>ch. ch \<noteq> CHR ''>'') (drop 4 s);
             rest = drop (4 + length tag) s
         in if rest = [] then None
            else if \<not> includes_str tag workshopItem_class then None
            else
              (case find_sub title (tl rest) of
                 None \<Rightarrow> None
               | Some t \<Rightarrow>
                   (case find_sub ''</div>'' (drop (t + length title) (tl rest)) of
                      None \<Rightarrow> None
                    | Some d \<Rightarrow>
                        Some (take (4 + length tag + 1 + t + length title + d + 6) s)))))"

text \<open>\<open>data.match\<close> of that pattern: the match at the first start that has one.\<close>

fun match_block :: "string \<Rightarrow> string \<Rightarrow> string option" where
  "match_block title [] = None"
| "match_block title (ch # cs) =
     (case block_at title (ch # cs) of
        Some b \<Rightarrow> Some b
      | None \<Rightarrow> match_block title cs)"

text \<open>Lines 68-69.\<close>

definition search_block :: "env \<Rightarrow> string \<Rightarrow> string \<Rightarrow> string + string option" where
  "search_block e modName data =
     (if list_ex is_syntax_char modName then engine_search e modName data
      else Inr (match_block (title_div modName) data))"

section \<open>The methods of SteamCmdManager\<close>

subsection \<open>findModByName (lines 54-103)\<close>

text \<open>
  Line 56 builds the address inside the executor of the promise: where
  \<open>encodeURIComponent\<close> throws, the promise rejects with that error before any request
  and with no entry in the log. Else there is one request; at the \<open>end\<close> of the response
  the body is searched inside the \<open>try\<close> of line 66, whose \<open>catch\<close> logs and rejects.
  The method listens to the \<open>error\<close> of the request only: a response that breaks off
  before its \<open>end\<close> settles nothing and is not in the model.
\<close>

definition findModByName :: "config \<Rightarrow> env \<Rightarrow> string \<Rightarrow> world \<Rightarrow> (msg + string option) \<times> world" where
  "findModByName c e modName w =
     (if has_lone_surrogate modName then (Inl (Text ''URI malformed''), w)
      else
        (case https_get e modName w of
           (RequestError m, w1) \<Rightarrow>
             (Inl (Text m), logError ''0'' modName (RequestFailed m) [] w1)
         | (ResponseEnd data, w1) \<Rightarrow>
             (case search_block e modName data of
                Inl m \<Rightarrow> (Inl (Text m), logError ''0'' modName (SearchError modName m) [] w1)
              | Inr None \<Rightarrow>
                  (Inr None, logError ''0'' modName (NotInSearchResults modName) [] w1)
              | Inr (Some block) \<Rightarrow>
                  (case match_filedetails_id block of
                     Some found \<Rightarrow> (Inr (Some found), w1)
                   | None \<Rightarrow>
                       (Inr None, logError ''0'' modName (IdNotExtracted modName) [] w1)))))"

subsection \<open>isModInstalled (lines 111-121) and isModInSteamCmd (lines 128-136)\<close>

text \<open>The \<open>try\<close> block of each, and the method with its \<open>catch\<close>.\<close>

definition isModInstalled_try :: "config \<Rightarrow> string \<Rightarrow> world \<Rightarrow> string + bool" where
  "isModInstalled_try c steamId w =
     (case statSync w (modsDirectory c @ [steamId]) of
        Inl err \<Rightarrow> Inl err
      | Inr stats \<Rightarrow> Inr (isDirectory stats))"

definition isModInstalled :: "config \<Rightarrow> string \<Rightarrow> string \<Rightarrow> world \<Rightarrow> bool \<times> world" where
  "isModInstalled c modId steamId w =
     (case isModInstalled_try c steamId w of
        Inl err \<Rightarrow> False
      | Inr b \<Rightarrow> b,
      w\<lparr>classifier_calls := classifier_calls w @ [ProbeInstalled modId steamId]\<rparr>)"

definition isModInSteamCmd_try :: "config \<Rightarrow> string \<Rightarrow> world \<Rightarrow> string + bool" where
  "isModInSteamCmd_try c steamId w = Inr (existsSync w (workshopDir c @ [steamId]))"

definition isModInSteamCmd :: "config \<Rightarrow> string \<Rightarrow> world \<Rightarrow> bool \<times> world" where
  "isModInSteamCmd c steamId w =
     (case isModInSteamCmd_try c steamId w of
        Inl err \<Rightarrow> False
      | Inr b \<Rightarrow> b,
      w\<lparr>classifier_calls := classifier_calls w @ [ProbeSteamCmd steamId]\<rparr>)"

subsection \<open>downloadMod (lines 144-276)\<close>

text \<open>Lines 162-165 and 185-188: make the mods directory when it is not there.\<close>

definition ensure_modsDirectory :: "config \<Rightarrow> env \<Rightarrow> world \<Rightarrow> (string + unit) \<times> world" where
  "ensure_modsDirectory c e w =
     (if \<not> existsSync w (modsDirectory c) then mkdirSync e (modsDirectory c) w else (Inr (), w))"

text \<open>
  One pass through the body of the promise. The source ends a pass in one of three ways:
  \<open>resolve()\<close>; \<open>reject(error)\<close> at once (lines 176 and 253, and a throw of line 187); or,
  at lines 202, 237 and 262, the test \<open>retryCount > 1\<close> that either starts the method again
  after the timer or rejects. The three places hold the same code, which \<open>downloadMod\<close>
  below has once.
\<close>

datatype verdict = Resolved | Rejected msg | RetryOrReject msg

definition download_attempt :: "config \<Rightarrow> env \<Rightarrow> moditem \<Rightarrow> world \<Rightarrow> verdict \<times> world" where
  "download_attempt c e m w0 =
     (case m of (modId, steamId, modName) \<Rightarrow>
      (case isModInstalled c modId steamId w0 of (installed, w1) \<Rightarrow>
       if installed then (Resolved, w1)
       else
        (case isModInSteamCmd c steamId w1 of (cached, w2) \<Rightarrow>
         if cached then
           (case ensure_modsDirectory c e w2 of
              (Inl err, w3) \<Rightarrow>
                (Rejected (Text err), logError modId modName (CopyError modName steamId err) [] w3)
            | (Inr u, w3) \<Rightarrow>
                (case cpSync e (workshopDir c @ [steamId]) (modsDirectory c @ [steamId]) w3 of
                   (Inl err, w4) \<Rightarrow>
                     (Rejected (Text err),
                      logError modId modName (CopyError modName steamId err) [] w4)
                 | (Inr u', w4) \<Rightarrow> (Resolved, w4)))
         else
           (case ensure_modsDirectory c e w2 of
              (Inl err, w3) \<Rightarrow> (Rejected (Text err), w3)
            | (Inr u, w3) \<Rightarrow>
                (case exec e steamId w3 of (out, w4) \<Rightarrow>
                 (case exec_error out of
                    Some err \<Rightarrow>
                      (RetryOrReject (Text err),
                       logError modId modName (DownloadError modName steamId err) (stderr out) w4)
                  | None \<Rightarrow>
                      if includes_str (stdout out) ''Success'' then
                        (if existsSync w4
                              (modsDirectory c @
                                 [''steamapps'', ''workshop'', ''content'', rimworldAppId c, steamId])
                         then
                           (case cpSync e
                                   (modsDirectory c @
                                      [''steamapps'', ''workshop'', ''content'', rimworldAppId c, steamId])
                                   (modsDirectory c @ [steamId]) w4 of
                              (Inl err, w5) \<Rightarrow>
                                (Rejected (Text err),
                                 logError modId modName (CopyError modName steamId err) [] w5)
                            | (Inr u', w5) \<Rightarrow> (Resolved, w5))
                         else
                           (RetryOrReject (NotFoundAfterDownload modName steamId),
                            logError modId modName (NotFoundAfterDownload modName steamId)
                              (stdout out) w4))
                      else
                        (RetryOrReject (DownloadFailed modName steamId),
                         logError modId modName (DownloadFailed modName steamId)
                           (stderr out) w4)))))))"

function downloadMod :: "config \<Rightarrow> env \<Rightarrow> moditem \<Rightarrow> int \<Rightarrow> world \<Rightarrow> (msg + unit) \<times> world" where
  "downloadMod c e m retryCount w0 =
     (case download_attempt c e m (w0\<lparr>driver_calls := driver_calls w0 @ [m]\<rparr>) of
        (Resolved, w) \<Rightarrow> (Inr (), w)
      | (Rejected err, w) \<Rightarrow> (Inl err, w)
      | (RetryOrReject err, w) \<Rightarrow>
          if retryCount > 1 then downloadMod c e m (retryCount - 1) (setTimeout 2000 w)
          else (Inl err, w))"
  by pat_completeness auto
termination
  by (relation "measure (\<lambda>(c, e, m, retryCount, w0). nat retryCount)") auto

subsection \<open>analyzeMods (lines 283-330) and writeModsToFile (lines 338-349)\<close>

definition coreModNames :: "string list" where
  "coreModNames = [''Core'', ''RimWorld'', ''RimWorldCore'', ''GameCore'']"

definition is_core :: "string \<Rightarrow> bool" where
  "is_core modName = list_ex (\<lambda>name. toLowerCase modName = toLowerCase name) coreModNames"

text \<open>Lines 314-322, for the mod with the Steam id it has by then.\<close>

definition check_presence ::
  "config \<Rightarrow> moditem \<Rightarrow> moditem list \<times> moditem list \<Rightarrow> world \<Rightarrow> (moditem list \<times> moditem list) \<times> world"
where
  "check_presence c m acc w =
     (case m of (modId, steamId, modName) \<Rightarrow>
      (case acc of (missingMods, notFoundMods) \<Rightarrow>
       (case isModInstalled c modId steamId w of (isInstalled, w1) \<Rightarrow>
        (case isModInSteamCmd c steamId w1 of (isInSteamCmd, w2) \<Rightarrow>
         if \<not> isInstalled \<and> \<not> isInSteamCmd then ((missingMods @ [m], notFoundMods), w2)
         else ((missingMods, notFoundMods), w2)))))"

text \<open>
  The body of the loop of line 289. Line 305 writes the Steam id that was found into the
  mod's array; the mod pushed on \<open>missingMods\<close> is that array. The caller reads, of the
  arrays of \<open>mods\<close>, the entries 0 and 2 only, which no line writes: so the model passes the
  new triple on and leaves the caller's list as it is. A found id is a string; \<open>if
  (foundSteamId)\<close> is false for the empty string and for null.
\<close>

definition analyze_mod ::
  "config \<Rightarrow> env \<Rightarrow> moditem \<Rightarrow> moditem list \<times> moditem list \<Rightarrow> world
     \<Rightarrow> (msg + moditem list \<times> moditem list) \<times> world"
where
  "analyze_mod c e m acc w =
     (case m of (modId, steamId, modName) \<Rightarrow>
      if is_core modName then (Inr acc, w)
      else if steamId = ''0'' then
        (case findModByName c e modName w of
           (Inl err, w1) \<Rightarrow> (Inl err, w1)
         | (Inr None, w1) \<Rightarrow> (Inr (fst acc, snd acc @ [m]), w1)
         | (Inr (Some foundSteamId), w1) \<Rightarrow>
             if foundSteamId \<noteq> [] then
               (case check_presence c (modId, foundSteamId, modName) acc w1 of
                  (acc1, w2) \<Rightarrow> (Inr acc1, w2))
             else (Inr (fst acc, snd acc @ [m]), w1))
      else (case check_presence c m acc w of (acc1, w1) \<Rightarrow> (Inr acc1, w1)))"

fun analyze_loop ::
  "config \<Rightarrow> env \<Rightarrow> moditem list \<Rightarrow> moditem list \<times> moditem list \<Rightarrow> world
     \<Rightarrow> (msg + moditem list \<times> moditem list) \<times> world"
where
  "analyze_loop c e [] acc w = (Inr acc, w)"
| "analyze_loop c e (m # ms) acc w =
     (case analyze_mod c e m acc w of
        (Inl err, w1) \<Rightarrow> (Inl err, w1)
      | (Inr acc1, w1) \<Rightarrow> analyze_loop c e ms acc1 w1)"

text \<open>
  The content of an audit file is the header, one block per mod and the count; the model
  keeps the list of mods the content is rendered from.
\<close>

definition writeModsToFile :: "env \<Rightarrow> audit_file \<Rightarrow> moditem list \<Rightarrow> world \<Rightarrow> (msg + unit) \<times> world" where
  "writeModsToFile e file mods w = writeFile e file mods w"

definition analyzeMods ::
  "config \<Rightarrow> env \<Rightarrow> moditem list \<Rightarrow> world \<Rightarrow> (msg + moditem list \<times> moditem list) \<times> world"
where
  "analyzeMods c e mods w =
     (case analyze_loop c e mods ([], []) w of
        (Inl err, w1) \<Rightarrow> (Inl err, w1)
      | (Inr (missingMods, notFoundMods), w1) \<Rightarrow>
          (case writeModsToFile e MissingModsFile missingMods w1 of
             (Inl err, w2) \<Rightarrow> (Inl err, w2)
           | (Inr u, w2) \<Rightarrow>
               (case writeModsToFile e NotFoundModsFile notFoundMods w2 of
                  (Inl err, w3) \<Rightarrow> (Inl err, w3)
                | (Inr u', w3) \<Rightarrow> (Inr (missingMods, notFoundMods), w3))))"

subsection \<open>downloadMods (lines 356-461)\<close>

definition skipped_outcome :: "moditem \<Rightarrow> outcome" where
  "skipped_outcome m =
     (case m of (modId, steamId, modName) \<Rightarrow>
        \<lparr>out_id = modId, out_name = modName, success = True, skipped = Some True,
         reason = Some AlreadyInstalled, error = None\<rparr>)"

definition failed_outcome :: "msg \<Rightarrow> moditem \<Rightarrow> outcome" where
  "failed_outcome err m =
     (case m of (modId, steamId, modName) \<Rightarrow>
        \<lparr>out_id = modId, out_name = modName, success = False, skipped = None,
         reason = None, error = Some err\<rparr>)"

definition downloaded_outcome :: "moditem \<Rightarrow> outcome" where
  "downloaded_outcome m =
     (case m of (modId, steamId, modName) \<Rightarrow>
        \<lparr>out_id = modId, out_name = modName, success = True, skipped = None,
         reason = None, error = None\<rparr>)"

text \<open>The loop of lines 413-433.\<close>

fun download_loop ::
  "config \<Rightarrow> env \<Rightarrow> moditem list \<Rightarrow> outcome list \<Rightarrow> world \<Rightarrow> outcome list \<times> world"
where
  "download_loop c e [] rs w = (rs, w)"
| "download_loop c e (m # ms) rs w =
     (case downloadMod c e m 3 w of
        (Inr u, w1) \<Rightarrow> download_loop c e ms (rs @ [downloaded_outcome m]) w1
      | (Inl err, w1) \<Rightarrow>
          download_loop c e ms (rs @ [failed_outcome err m])
            (logError (fst m) (snd (snd m)) err [] w1))"

text \<open>
  Inside the \<open>try\<close> of line 357 only \<open>analyzeMods\<close> can throw: the loop of the
  downloads catches the rejection of \<open>downloadMod\<close> itself.
\<close>

definition downloadMods :: "config \<Rightarrow> env \<Rightarrow> moditem list \<Rightarrow> world \<Rightarrow> report \<times> world" where
  "downloadMods c e mods w =
     (case analyzeMods c e mods w of
        (Inl err, w1) \<Rightarrow>
          (\<lparr>rep_success = False, results = map (failed_outcome GeneralDownloadError) mods\<rparr>, w1)
      | (Inr (missingMods, notFoundMods), w1) \<Rightarrow>
          if length missingMods = 0 then
            (\<lparr>rep_success = True, results = map skipped_outcome mods\<rparr>, w1)
          else
            (case question e w1 of (ans, w2) \<Rightarrow>
             if toLowerCase ans \<noteq> ''y'' then
               (\<lparr>rep_success = False, results = map (failed_outcome CancelledByUser) mods\<rparr>, w2)
             else
               (case download_loop c e missingMods [] w2 of (rs, w3) \<Rightarrow>
                (\<lparr>rep_success =
                     list_all success
                       (rs @ map skipped_outcome
                          (filter (\<lambda>m. \<not> list_ex (\<lambda>mm. fst mm = fst m) missingMods) mods)),
                   results =
                     rs @ map skipped_outcome
                       (filter (\<lambda>m. \<not> list_ex (\<lambda>mm. fst mm = fst m) missingMods) mods)\<rparr>,
                 w3))))"

section \<open>What the claims speak of\<close>

text \<open>The place where SteamCMD leaves a download (line 221).\<close>

definition payload_path :: "config \<Rightarrow> string \<Rightarrow> path" where
  "payload_path c steamId =
     modsDirectory c @ [''steamapps'', ''workshop'', ''content'', rimworldAppId c, steamId]"

text \<open>A file system in which the mod is neither in the mods directory nor in the cache.\<close>

definition still_missing :: "config \<Rightarrow> string \<Rightarrow> (path \<Rightarrow> node) \<Rightarrow> bool" where
  "still_missing c steamId f \<longleftrightarrow>
     f (modsDirectory c @ [steamId]) \<noteq> Dir
     \<and> f (workshopDir c @ [steamId]) \<noteq> Dir \<and> f (workshopDir c @ [steamId]) \<noteq> File"

definition payload_present :: "config \<Rightarrow> string \<Rightarrow> exec_outcome \<Rightarrow> bool" where
  "payload_present c steamId out \<longleftrightarrow>
     fs_after out (payload_path c steamId) = Dir \<or> fs_after out (payload_path c steamId) = File"

text \<open>
  The tool succeeds: the process ends without error, its output has the marker and the
  download is where line 221 looks for it. It fails in one of the three other ways.
\<close>

definition tool_succeeds :: "config \<Rightarrow> string \<Rightarrow> exec_outcome \<Rightarrow> bool" where
  "tool_succeeds c steamId out \<longleftrightarrow>
     exec_error out = None \<and> includes_str (stdout out) ''Success'' \<and> payload_present c steamId out"

definition retryable_failure :: "config \<Rightarrow> string \<Rightarrow> exec_outcome \<Rightarrow> bool" where
  "retryable_failure c steamId out \<longleftrightarrow> \<not> tool_succeeds c steamId out"

text \<open>The error a failed pass rejects with (lines 212, 247, 272).\<close>

definition failure_message :: "moditem \<Rightarrow> exec_outcome \<Rightarrow> msg" where
  "failure_message m out =
     (case m of (modId, steamId, modName) \<Rightarrow>
      (case exec_error out of
         Some err \<Rightarrow> Text err
       | None \<Rightarrow>
           if includes_str (stdout out) ''Success'' then NotFoundAfterDownload modName steamId
           else DownloadFailed modName steamId))"

text \<open>What the analysis leaves as it is: it reads the file system and the network only.\<close>

definition analysis_frame :: "world \<Rightarrow> world \<Rightarrow> bool" where
  "analysis_frame w w' \<longleftrightarrow>
     fs w' = fs w \<and> execs w' = execs w \<and> timers w' = timers w \<and> copies w' = copies w
     \<and> mkdirs w' = mkdirs w \<and> driver_calls w' = driver_calls w \<and> writes w' = writes w
     \<and> prompts w' = prompts w \<and> audit w' = audit w"

text \<open>
  The calls of the two probes, and the entries into \<open>downloadMod\<close>, that the way from
  \<open>w\<close> to \<open>w'\<close> adds to the calls made before.
\<close>

definition new_probes :: "world \<Rightarrow> world \<Rightarrow> probe list" where
  "new_probes w w' = drop (length (classifier_calls w)) (classifier_calls w')"

definition new_downloads :: "world \<Rightarrow> world \<Rightarrow> moditem list" where
  "new_downloads w w' = drop (length (driver_calls w)) (driver_calls w')"

text \<open>
  The probes of a list are probes for mods whose \<open>modId\<close> is in \<open>I\<close>: every call of
  \<open>isModInstalled\<close> has a \<open>modId\<close> of \<open>I\<close>, and every call of \<open>isModInSteamCmd\<close>,
  which receives the Steam id only, has the Steam id of such a call of the list.
\<close>

definition probes_of_ids :: "string set \<Rightarrow> probe list \<Rightarrow> bool" where
  "probes_of_ids I ps \<longleftrightarrow>
     (\<forall>a s. ProbeInstalled a s \<in> set ps \<longrightarrow> a \<in> I)
     \<and> (\<forall>s. ProbeSteamCmd s \<in> set ps \<longrightarrow> (\<exists>a. a \<in> I \<and> ProbeInstalled a s \<in> set ps))"

text \<open>
  From \<open>w\<close> to \<open>w'\<close> the two lists of calls grow at their end, by probes and by
  entries into \<open>downloadMod\<close> for mods whose \<open>modId\<close> is in \<open>I\<close>.
\<close>

definition calls_for :: "string set \<Rightarrow> world \<Rightarrow> world \<Rightarrow> bool" where
  "calls_for I w w' \<longleftrightarrow>
     (\<exists>ps. classifier_calls w' = classifier_calls w @ ps \<and> probes_of_ids I ps)
     \<and> (\<exists>ds. driver_calls w' = driver_calls w @ ds \<and> fst ` set ds \<subseteq> I)"

section \<open>Concrete runs\<close>

text \<open>A configuration like that of config.js, with a shorter mods directory.\<close>

definition cfg :: config where
  "cfg = \<lparr>steamCmdPath = [''C:'', ''Games'', ''steamCMD'', ''steamcmd.exe''],
          rimworldAppId = ''294100'',
          modsDirectory = [''C:'', ''RimWorld'', ''Mods''],
          steamLogin = ''anonymous''\<rparr>"

definition fs_of :: "(path \<times> node) list \<Rightarrow> path \<Rightarrow> node" where
  "fs_of entries p = (case map_of entries p of Some n \<Rightarrow> n | None \<Rightarrow> NoEntry)"

definition fresh_world :: "(path \<Rightarrow> node) \<Rightarrow> world" where
  "fresh_world f =
     \<lparr>fs = f, requests = [], classifier_calls = [], driver_calls = [], mkdirs = [],
      copies = [], execs = [], timers = [], errlog = [], audit = (\<lambda>file. None),
      writes = 0, prompts = 0\<rparr>"

definition failing_exec :: "(path \<Rightarrow> node) \<Rightarrow> exec_outcome" where
  "failing_exec f =
     \<lparr>exec_error = Some ''Command failed'', stdout = [], stderr = ''ERROR! Timeout'',
      fs_after = f\<rparr>"

text \<open>
  An outside where every response is empty (so that the search for a plain name finds
  nothing), every download fails and leaves the file system \<open>f\<close>, no file operation
  fails and the user says yes.
\<close>

definition quiet_env :: "(path \<Rightarrow> node) \<Rightarrow> env" where
  "quiet_env f =
     \<lparr>http_script = (\<lambda>i. ResponseEnd []), engine_search = (\<lambda>modName data. Inr None),
      exec_script = (\<lambda>i. failing_exec f), mkdir_script = (\<lambda>i. None),
      cp_script = (\<lambda>i. None), write_script = (\<lambda>i. None), answer = ''y''\<rparr>"

text \<open>Mod 5 is in the cache as a directory, or as a plain file; mod 1 is installed.\<close>

definition fs_cached_dir :: "path \<Rightarrow> node" where
  "fs_cached_dir =
     fs_of [([''C:'', ''RimWorld'', ''Mods''], Dir),
            ([''C:'', ''Games'', ''steamCMD'', ''steamapps'', ''workshop'', ''content'', ''294100'', ''5''], Dir)]"

definition fs_cached_file :: "path \<Rightarrow> node" where
  "fs_cached_file =
     fs_of [([''C:'', ''RimWorld'', ''Mods''], Dir),
            ([''C:'', ''Games'', ''steamCMD'', ''steamapps'', ''workshop'', ''content'', ''294100'', ''5''], File)]"

definition fs_unreadable :: "path \<Rightarrow> node" where
  "fs_unreadable =
     fs_of [([''C:'', ''RimWorld'', ''Mods''], Dir),
            ([''C:'', ''RimWorld'', ''Mods'', ''5''], IOError),
            ([''C:'', ''Games'', ''steamCMD'', ''steamapps'', ''workshop'', ''content'', ''294100'', ''5''], IOError)]"

definition env_copy_denied :: env where
  "env_copy_denied = (quiet_env fs_cached_dir)\<lparr>cp_script := (\<lambda>i. Some ''EACCES'')\<rparr>"

text \<open>
  Mod 7 is nowhere; a download that works leaves it where line 221 looks for it.
\<close>

definition fs_mods_only :: "path \<Rightarrow> node" where
  "fs_mods_only = fs_of [([''C:'', ''RimWorld'', ''Mods''], Dir)]"

definition fs_downloaded :: "path \<Rightarrow> node" where
  "fs_downloaded =
     fs_of [([''C:'', ''RimWorld'', ''Mods''], Dir),
            ([''C:'', ''RimWorld'', ''Mods'', ''steamapps'', ''workshop'', ''content'', ''294100'', ''7''], Dir)]"

definition good_exec :: exec_outcome where
  "good_exec =
     \<lparr>exec_error = None, stdout = ''Success. Downloaded item 7'', stderr = [],
      fs_after = fs_downloaded\<rparr>"

definition env_second_ok :: env where
  "env_second_ok =
     (quiet_env fs_mods_only)\<lparr>exec_script := (\<lambda>i. if i = 1 then good_exec else failing_exec fs_mods_only)\<rparr>"

definition env_download_copy_denied :: env where
  "env_download_copy_denied =
     (quiet_env fs_mods_only)\<lparr>exec_script := (\<lambda>i. good_exec), cp_script := (\<lambda>i. Some ''EACCES'')\<rparr>"


text \<open>Mod 1 is installed; a user who declines; audit files that cannot be written.\<close>

definition fs_installed1 :: "path \<Rightarrow> node" where
  "fs_installed1 =
     fs_of [([''C:'', ''RimWorld'', ''Mods''], Dir), ([''C:'', ''RimWorld'', ''Mods'', ''1''], Dir)]"

definition env_says_no :: env where
  "env_says_no = (quiet_env fs_mods_only)\<lparr>answer := ''n''\<rparr>"

definition env_write_denied :: env where
  "env_write_denied = (quiet_env fs_installed1)\<lparr>write_script := (\<lambda>i. Some ''EACCES'')\<rparr>"

text \<open>The first search finds nothing; the second request fails.\<close>

definition env_second_lookup_fails :: env where
  "env_second_lookup_fails =
     (quiet_env fs_mods_only)\<lparr>http_script :=
        (\<lambda>i. if i = 0 then ResponseEnd [] else RequestError ''ECONNRESET'')\<rparr>"

text \<open>
  A page of results with two entries: the first is titled Other and links to the id 111,
  the second is titled Ghost and its link has no id.
\<close>

definition entry :: "string \<Rightarrow> string \<Rightarrow> string" where
  "entry link title =
     ''<div class='' @ [CHR 0x22] @ ''workshopItem'' @ [CHR 0x22] @ ''><a href='' @ [CHR 0x22]
       @ link @ [CHR 0x22] @ ''>'' @ title_div title @ ''</a></div>''"

definition page_two_entries :: string where
  "page_two_entries =
     ''<html>''
       @ entry ''https://steamcommunity.com/sharedfiles/filedetails/?id=111'' ''Other''
       @ entry ''https://steamcommunity.com/sharedfiles/filedetails/?id='' ''Ghost''
       @ ''</html>''"

definition env_two_entries :: env where
  "env_two_entries =
     (quiet_env fs_mods_only)\<lparr>http_script := (\<lambda>i. ResponseEnd page_two_entries)\<rparr>"

section \<open>Lemmas on the outside and on single passes\<close>

declare downloadMod.simps [simp del]

lemma cfg_simps [simp]:
  "modsDirectory cfg = [''C:'', ''RimWorld'', ''Mods'']"
  "workshopDir cfg =
     [''C:'', ''Games'', ''steamCMD'', ''steamapps'', ''workshop'', ''content'', ''294100'']"
  "rimworldAppId cfg = ''294100''"
  by (simp_all add: cfg_def workshopDir_def steamCmdDir_def)

lemma isModInstalled_eq:
  "isModInstalled c modId steamId w =
     (fs w (modsDirectory c @ [steamId]) = Dir,
      w\<lparr>classifier_calls := classifier_calls w @ [ProbeInstalled modId steamId]\<rparr>)"
  by (cases "fs w (modsDirectory c @ [steamId])")
     (simp_all add: isModInstalled_def isModInstalled_try_def statSync_def isDirectory_def)

lemma isModInSteamCmd_eq:
  "isModInSteamCmd c steamId w =
     (existsSync w (workshopDir c @ [steamId]),
      w\<lparr>classifier_calls := classifier_calls w @ [ProbeSteamCmd steamId]\<rparr>)"
  by (simp add: isModInSteamCmd_def isModInSteamCmd_try_def)

lemma existsSync_update [simp]:
  "existsSync (w\<lparr>classifier_calls := x\<rparr>) p = existsSync w p"
  "existsSync (w\<lparr>driver_calls := y\<rparr>) p = existsSync w p"
  "existsSync (w\<lparr>requests := z\<rparr>) p = existsSync w p"
  "existsSync (w\<lparr>errlog := l\<rparr>) p = existsSync w p"
  "existsSync (w\<lparr>timers := t\<rparr>) p = existsSync w p"
  "existsSync (w\<lparr>copies := cs\<rparr>) p = existsSync w p"
  "existsSync (w\<lparr>mkdirs := ms\<rparr>) p = existsSync w p"
  "existsSync (w\<lparr>execs := es\<rparr>) p = existsSync w p"
  by (simp_all add: existsSync_def)

lemma downloadMod_Resolved:
  "fst (download_attempt c e m (w\<lparr>driver_calls := driver_calls w @ [m]\<rparr>)) = Resolved \<Longrightarrow>
   downloadMod c e m r w =
     (Inr (), snd (download_attempt c e m (w\<lparr>driver_calls := driver_calls w @ [m]\<rparr>)))"
  by (subst downloadMod.simps) (simp add: case_prod_beta)

lemma downloadMod_Rejected:
  "fst (download_attempt c e m (w\<lparr>driver_calls := driver_calls w @ [m]\<rparr>)) = Rejected err \<Longrightarrow>
   downloadMod c e m r w =
     (Inl err, snd (download_attempt c e m (w\<lparr>driver_calls := driver_calls w @ [m]\<rparr>)))"
  by (subst downloadMod.simps) (simp add: case_prod_beta)

lemma downloadMod_Retry:
  "fst (download_attempt c e m (w\<lparr>driver_calls := driver_calls w @ [m]\<rparr>)) = RetryOrReject err \<Longrightarrow>
   1 < r \<Longrightarrow>
   downloadMod c e m r w =
     downloadMod c e m (r - 1)
       (setTimeout 2000
          (snd (download_attempt c e m (w\<lparr>driver_calls := driver_calls w @ [m]\<rparr>))))"
  by (subst downloadMod.simps) (simp add: case_prod_beta)

lemma downloadMod_Last:
  "fst (download_attempt c e m (w\<lparr>driver_calls := driver_calls w @ [m]\<rparr>)) = RetryOrReject err \<Longrightarrow>
   \<not> 1 < r \<Longrightarrow>
   downloadMod c e m r w =
     (Inl err, snd (download_attempt c e m (w\<lparr>driver_calls := driver_calls w @ [m]\<rparr>)))"
  by (subst downloadMod.simps) (simp add: case_prod_beta)

section \<open>The classifier probes\<close>

text \<open>
  Claim C7, as the code has it. Neither probe lets an exception out: \<open>isModInstalled\<close> is
  true exactly when the path \<open>modsDirectory/steamId\<close> is a directory, and false when
  \<open>statSync\<close> throws (no entry, or an I/O error); \<open>isModInSteamCmd\<close> is true exactly when
  something, a directory or a plain file, is at \<open>workshopDir/steamId\<close>, and false on an
  I/O error. \<open>analyzeMods\<close> puts a mod on the missing list exactly when both probes are false.
\<close>

theorem classifier_probes:
  "fst (isModInstalled c modId steamId w) = (fs w (modsDirectory c @ [steamId]) = Dir)
   \<and> fst (isModInSteamCmd c steamId w)
       = (fs w (workshopDir c @ [steamId]) = Dir \<or> fs w (workshopDir c @ [steamId]) = File)
   \<and> (fs w (modsDirectory c @ [steamId]) = IOError \<or> fs w (modsDirectory c @ [steamId]) = NoEntry
        \<longrightarrow> (\<exists>err. isModInstalled_try c steamId w = Inl err)
            \<and> fst (isModInstalled c modId steamId w) = False)
   \<and> (fs w (workshopDir c @ [steamId]) = IOError \<or> fs w (workshopDir c @ [steamId]) = NoEntry
        \<longrightarrow> fst (isModInSteamCmd c steamId w) = False)
   \<and> fst (fst (check_presence c (modId, steamId, modName) (missingMods, notFoundMods) w))
       = (if fs w (modsDirectory c @ [steamId]) \<noteq> Dir
             \<and> fs w (workshopDir c @ [steamId]) \<noteq> Dir
             \<and> fs w (workshopDir c @ [steamId]) \<noteq> File
          then missingMods @ [(modId, steamId, modName)] else missingMods)"
  by (auto simp: isModInstalled_eq isModInSteamCmd_eq existsSync_def check_presence_def
        isModInstalled_try_def statSync_def)

text \<open>Both paths of mod 5 answer with an I/O error: both probes are false and the mod is listed as missing.\<close>

theorem classifier_probes_witness:
  "fs (fresh_world fs_unreadable) (modsDirectory cfg @ [''5'']) = IOError
   \<and> fs (fresh_world fs_unreadable) (workshopDir cfg @ [''5'']) = IOError
   \<and> (\<exists>err. isModInstalled_try cfg ''5'' (fresh_world fs_unreadable) = Inl err)
   \<and> fst (isModInstalled cfg ''m'' ''5'' (fresh_world fs_unreadable)) = False
   \<and> fst (isModInSteamCmd cfg ''5'' (fresh_world fs_unreadable)) = False
   \<and> fst (fst (check_presence cfg (''m'', ''5'', ''M'') ([], []) (fresh_world fs_unreadable)))
       = [(''m'', ''5'', ''M'')]"
  using classifier_probes [where c = cfg and w = "fresh_world fs_unreadable" and steamId = "''5''"
      and modId = "''m''" and modName = "''M''" and missingMods = "[]" and notFoundMods = "[]"]
  by (simp add: fresh_world_def fs_unreadable_def fs_of_def)

text \<open>
  Claim C7 as it is written fails where the cache holds a plain file of the mod's name: no
  directory of that name is in the cache, and the mod is still taken as cached (the pass
  copies it and resolves, and the analysis does not list it as missing).
\<close>

theorem cached_plain_file_counterexample:
  "fs (fresh_world fs_cached_file) (workshopDir cfg @ [''5'']) \<noteq> Dir
   \<and> \<not> fst (isModInstalled cfg ''m'' ''5'' (fresh_world fs_cached_file))
   \<and> fst (isModInSteamCmd cfg ''5'' (fresh_world fs_cached_file))
   \<and> fst (fst (check_presence cfg (''m'', ''5'', ''M'') ([], []) (fresh_world fs_cached_file))) = []
   \<and> fst (download_attempt cfg (quiet_env fs_cached_file) (''m'', ''5'', ''M'')
             (fresh_world fs_cached_file)) = Resolved
   \<and> copies (snd (download_attempt cfg (quiet_env fs_cached_file) (''m'', ''5'', ''M'')
             (fresh_world fs_cached_file)))
       = [(workshopDir cfg @ [''5''], modsDirectory cfg @ [''5''])]"
  by (simp add: isModInstalled_eq isModInSteamCmd_eq existsSync_def check_presence_def
        download_attempt_def ensure_modsDirectory_def cpSync_def quiet_env_def Let_def
        fresh_world_def fs_cached_file_def fs_of_def)

section \<open>A copy from the cache that fails\<close>

lemma attempt_cached_copy_error:
  assumes not_installed: "fs w (modsDirectory c @ [steamId]) \<noteq> Dir"
      and cached: "existsSync w (workshopDir c @ [steamId])"
      and dir_ok: "existsSync w (modsDirectory c) \<or> mkdir_script e (length (mkdirs w)) = None"
      and copy_raises: "cp_script e (length (copies w)) = Some err"
  shows "fst (download_attempt c e (modId, steamId, modName) w) = Rejected (Text err)
     \<and> copies (snd (download_attempt c e (modId, steamId, modName) w))
         = copies w @ [(workshopDir c @ [steamId], modsDirectory c @ [steamId])]
     \<and> execs (snd (download_attempt c e (modId, steamId, modName) w)) = execs w
     \<and> timers (snd (download_attempt c e (modId, steamId, modName) w)) = timers w
     \<and> driver_calls (snd (download_attempt c e (modId, steamId, modName) w)) = driver_calls w
     \<and> errlog (snd (download_attempt c e (modId, steamId, modName) w))
         = errlog w @ [\<lparr>log_modId = modId, log_modName = modName,
                         log_error = CopyError modName steamId err, log_details = []\<rparr>]"
proof (cases "existsSync w (modsDirectory c)")
  case True
  with assms show ?thesis
    by (simp add: download_attempt_def isModInstalled_eq isModInSteamCmd_eq
          ensure_modsDirectory_def cpSync_def logError_def Let_def)
next
  case False
  with dir_ok have mk: "mkdir_script e (length (mkdirs w)) = None" by simp
  from False mk not_installed cached copy_raises show ?thesis
    by (auto simp: download_attempt_def isModInstalled_eq isModInSteamCmd_eq
          ensure_modsDirectory_def mkdirSync_def cpSync_def logError_def Let_def existsSync_def)
qed

text \<open>
  Claim C8. The mod is not installed and is in the cache, and \<open>cpSync\<close> throws. Then
  \<open>downloadMod\<close> rejects with that error whatever \<open>retryCount\<close> is: the copy was tried
  once, no process was started, no timer was set, the method was entered once, and the
  error log has one new entry.
\<close>

theorem cached_copy_error_rejects_at_once:
  assumes not_installed: "fs w (modsDirectory c @ [steamId]) \<noteq> Dir"
      and cached: "existsSync w (workshopDir c @ [steamId])"
      and dir_ok: "existsSync w (modsDirectory c) \<or> mkdir_script e (length (mkdirs w)) = None"
      and copy_raises: "cp_script e (length (copies w)) = Some err"
  shows "fst (downloadMod c e (modId, steamId, modName) retryCount w) = Inl (Text err)
     \<and> copies (snd (downloadMod c e (modId, steamId, modName) retryCount w))
         = copies w @ [(workshopDir c @ [steamId], modsDirectory c @ [steamId])]
     \<and> execs (snd (downloadMod c e (modId, steamId, modName) retryCount w)) = execs w
     \<and> timers (snd (downloadMod c e (modId, steamId, modName) retryCount w)) = timers w
     \<and> driver_calls (snd (downloadMod c e (modId, steamId, modName) retryCount w))
         = driver_calls w @ [(modId, steamId, modName)]
     \<and> errlog (snd (downloadMod c e (modId, steamId, modName) retryCount w))
         = errlog w @ [\<lparr>log_modId = modId, log_modName = modName,
                         log_error = CopyError modName steamId err, log_details = []\<rparr>]"
proof -
  let ?w0 = "w\<lparr>driver_calls := driver_calls w @ [(modId, steamId, modName)]\<rparr>"
  have a: "fs ?w0 (modsDirectory c @ [steamId]) \<noteq> Dir"
          "existsSync ?w0 (workshopDir c @ [steamId])"
          "existsSync ?w0 (modsDirectory c) \<or> mkdir_script e (length (mkdirs ?w0)) = None"
          "cp_script e (length (copies ?w0)) = Some err"
    using assms by simp_all
  note att = attempt_cached_copy_error [OF a, of modId modName]
  from att have "downloadMod c e (modId, steamId, modName) retryCount w
        = (Inl (Text err), snd (download_attempt c e (modId, steamId, modName) ?w0))"
    by (intro downloadMod_Rejected) simp
  with att show ?thesis by simp
qed

text \<open>Mod 5 is in the cache and the copy is denied: with three tries allowed, one copy, no process, no timer.\<close>

theorem cached_copy_error_witness:
  "fs (fresh_world fs_cached_dir) (modsDirectory cfg @ [''5'']) \<noteq> Dir
   \<and> existsSync (fresh_world fs_cached_dir) (workshopDir cfg @ [''5''])
   \<and> existsSync (fresh_world fs_cached_dir) (modsDirectory cfg)
   \<and> cp_script env_copy_denied (length (copies (fresh_world fs_cached_dir))) = Some ''EACCES''
   \<and> fst (downloadMod cfg env_copy_denied (''m'', ''5'', ''M'') 3 (fresh_world fs_cached_dir))
       = Inl (Text ''EACCES'')
   \<and> copies (snd (downloadMod cfg env_copy_denied (''m'', ''5'', ''M'') 3 (fresh_world fs_cached_dir)))
       = [(workshopDir cfg @ [''5''], modsDirectory cfg @ [''5''])]
   \<and> execs (snd (downloadMod cfg env_copy_denied (''m'', ''5'', ''M'') 3 (fresh_world fs_cached_dir))) = []
   \<and> timers (snd (downloadMod cfg env_copy_denied (''m'', ''5'', ''M'') 3 (fresh_world fs_cached_dir))) = []
   \<and> driver_calls (snd (downloadMod cfg env_copy_denied (''m'', ''5'', ''M'') 3 (fresh_world fs_cached_dir)))
       = [(''m'', ''5'', ''M'')]"
proof -
  have h: "fs (fresh_world fs_cached_dir) (modsDirectory cfg @ [''5'']) \<noteq> Dir"
          "existsSync (fresh_world fs_cached_dir) (workshopDir cfg @ [''5''])"
          "existsSync (fresh_world fs_cached_dir) (modsDirectory cfg)
             \<or> mkdir_script env_copy_denied (length (mkdirs (fresh_world fs_cached_dir))) = None"
          "cp_script env_copy_denied (length (copies (fresh_world fs_cached_dir))) = Some ''EACCES''"
    by (simp_all add: fresh_world_def fs_cached_dir_def fs_of_def existsSync_def
          env_copy_denied_def quiet_env_def)
  have e: "existsSync (fresh_world fs_cached_dir) (modsDirectory cfg)"
    by (simp add: fresh_world_def fs_cached_dir_def fs_of_def existsSync_def)
  have c: "copies (fresh_world fs_cached_dir) = []" "execs (fresh_world fs_cached_dir) = []"
          "timers (fresh_world fs_cached_dir) = []" "driver_calls (fresh_world fs_cached_dir) = []"
    by (simp_all add: fresh_world_def)
  from cached_copy_error_rejects_at_once [OF h, of "''m''" "''M''" 3] h e c
  show ?thesis by simp
qed

section \<open>The retry loop of downloadMod\<close>

lemma attempt_tool_fails:
  assumes miss: "still_missing c steamId (fs w)"
      and mk: "\<forall>j. mkdir_script e j = None"
      and fail: "retryable_failure c steamId (exec_script e (length (execs w)))"
  shows "fst (download_attempt c e (modId, steamId, modName) w)
           = RetryOrReject (failure_message (modId, steamId, modName) (exec_script e (length (execs w))))
     \<and> execs (snd (download_attempt c e (modId, steamId, modName) w)) = execs w @ [steamId]
     \<and> timers (snd (download_attempt c e (modId, steamId, modName) w)) = timers w
     \<and> copies (snd (download_attempt c e (modId, steamId, modName) w)) = copies w
     \<and> fs (snd (download_attempt c e (modId, steamId, modName) w))
          = fs_after (exec_script e (length (execs w)))"
  using assms
  by (cases "exec_error (exec_script e (length (execs w)))")
     (auto simp: download_attempt_def isModInstalled_eq isModInSteamCmd_eq still_missing_def
        ensure_modsDirectory_def mkdirSync_def exec_def logError_def Let_def existsSync_def
        retryable_failure_def tool_succeeds_def payload_present_def payload_path_def
        failure_message_def)

lemma attempt_tool_succeeds:
  assumes miss: "still_missing c steamId (fs w)"
      and mk: "\<forall>j. mkdir_script e j = None"
      and ok: "tool_succeeds c steamId (exec_script e (length (execs w)))"
  shows "fst (download_attempt c e (modId, steamId, modName) w)
           = (case cp_script e (length (copies w)) of None \<Rightarrow> Resolved | Some err \<Rightarrow> Rejected (Text err))
     \<and> execs (snd (download_attempt c e (modId, steamId, modName) w)) = execs w @ [steamId]
     \<and> timers (snd (download_attempt c e (modId, steamId, modName) w)) = timers w
     \<and> copies (snd (download_attempt c e (modId, steamId, modName) w))
          = copies w @ [(payload_path c steamId, modsDirectory c @ [steamId])]"
  using assms
  by (cases "cp_script e (length (copies w))")
     (auto simp: download_attempt_def isModInstalled_eq isModInSteamCmd_eq still_missing_def
        ensure_modsDirectory_def mkdirSync_def exec_def cpSync_def logError_def Let_def existsSync_def
        tool_succeeds_def payload_present_def payload_path_def)

lemma downloadMod_skip_failures:
  assumes mk: "\<forall>j. mkdir_script e j = None"
  shows "still_missing c steamId (fs w) \<Longrightarrow> int j < r \<Longrightarrow>
     (\<forall>i<j. retryable_failure c steamId (exec_script e (length (execs w) + i))
            \<and> still_missing c steamId (fs_after (exec_script e (length (execs w) + i)))) \<Longrightarrow>
     \<exists>w'. downloadMod c e (modId, steamId, modName) r w
             = downloadMod c e (modId, steamId, modName) (r - int j) w'
          \<and> execs w' = execs w @ replicate j steamId
          \<and> timers w' = timers w @ replicate j 2000
          \<and> copies w' = copies w
          \<and> still_missing c steamId (fs w')"
proof (induction j arbitrary: w r)
  case 0
  then show ?case by (intro exI [of _ w]) simp
next
  case (Suc j)
  let ?m = "(modId, steamId, modName)"
  let ?w0 = "w\<lparr>driver_calls := driver_calls w @ [?m]\<rparr>"
  let ?out = "exec_script e (length (execs w))"
  let ?w1 = "snd (download_attempt c e ?m ?w0)"
  let ?w2 = "setTimeout 2000 ?w1"
  from Suc.prems(3) have f0: "retryable_failure c steamId ?out"
    and m0: "still_missing c steamId (fs_after ?out)"
    using zero_less_Suc [of j] by (metis add.right_neutral)+
  have att: "fst (download_attempt c e ?m ?w0) = RetryOrReject (failure_message ?m ?out)"
       "execs ?w1 = execs w @ [steamId]" "timers ?w1 = timers w" "copies ?w1 = copies w"
       "fs ?w1 = fs_after ?out"
    using attempt_tool_fails [of c steamId ?w0 e modId modName] Suc.prems(1) mk f0
    by simp_all
  from Suc.prems(2) have r1: "1 < r" by simp
  have step: "downloadMod c e ?m r w = downloadMod c e ?m (r - 1) ?w2"
    using downloadMod_Retry [OF att(1) r1] .
  have w2: "execs ?w2 = execs w @ [steamId]" "timers ?w2 = timers w @ [2000]"
       "copies ?w2 = copies w" "fs ?w2 = fs_after ?out"
    using att by (simp_all add: setTimeout_def)
  have p1: "still_missing c steamId (fs ?w2)" using m0 w2 by simp
  have p2: "int j < r - 1" using Suc.prems(2) by simp
  have p3: "\<forall>i<j. retryable_failure c steamId (exec_script e (length (execs ?w2) + i))
            \<and> still_missing c steamId (fs_after (exec_script e (length (execs ?w2) + i)))"
  proof (intro allI impI)
    fix i assume "i < j"
    then have "Suc i < Suc j" by simp
    with Suc.prems(3) have "retryable_failure c steamId (exec_script e (length (execs w) + Suc i))
            \<and> still_missing c steamId (fs_after (exec_script e (length (execs w) + Suc i)))"
      by blast
    then show "retryable_failure c steamId (exec_script e (length (execs ?w2) + i))
            \<and> still_missing c steamId (fs_after (exec_script e (length (execs ?w2) + i)))"
      using w2(1) by simp
  qed
  from Suc.IH [OF p1 p2 p3] obtain w' where
    w': "downloadMod c e ?m (r - 1) ?w2 = downloadMod c e ?m (r - 1 - int j) w'"
        "execs w' = execs ?w2 @ replicate j steamId"
        "timers w' = timers ?w2 @ replicate j 2000"
        "copies w' = copies ?w2" "still_missing c steamId (fs w')"
    by blast
  have "downloadMod c e ?m r w = downloadMod c e ?m (r - int (Suc j)) w'"
    using step w'(1) by (simp add: algebra_simps)
  moreover have "execs w' = execs w @ replicate (Suc j) steamId"
    using w'(2) w2(1) by (simp add: replicate_append_same)
  moreover have "timers w' = timers w @ replicate (Suc j) 2000"
    using w'(3) w2(2) by (simp add: replicate_append_same)
  moreover have "copies w' = copies w" using w'(4) w2(3) by simp
  ultimately show ?case using w'(5) by blast
qed

lemma downloadMod_all_fail:
  assumes miss: "still_missing c steamId (fs w)"
      and mk: "\<forall>j. mkdir_script e j = None"
      and n: "1 \<le> n"
      and fails: "\<forall>i<n. retryable_failure c steamId (exec_script e (length (execs w) + i))"
      and stays: "\<forall>i. Suc i < n \<longrightarrow>
                   still_missing c steamId (fs_after (exec_script e (length (execs w) + i)))"
  shows "fst (downloadMod c e (modId, steamId, modName) (int n) w)
           = Inl (failure_message (modId, steamId, modName)
                    (exec_script e (length (execs w) + (n - 1))))
     \<and> execs (snd (downloadMod c e (modId, steamId, modName) (int n) w))
           = execs w @ replicate n steamId
     \<and> timers (snd (downloadMod c e (modId, steamId, modName) (int n) w))
           = timers w @ replicate (n - 1) 2000"
proof -
  let ?m = "(modId, steamId, modName)"
  have p2: "int (n - 1) < int n" using n by simp
  have p3: "\<forall>i<n - 1. retryable_failure c steamId (exec_script e (length (execs w) + i))
            \<and> still_missing c steamId (fs_after (exec_script e (length (execs w) + i)))"
    using fails stays by (simp add: less_diff_conv)
  from downloadMod_skip_failures [OF mk miss p2 p3, of modId modName] obtain w' where
    w': "downloadMod c e ?m (int n) w = downloadMod c e ?m (int n - int (n - 1)) w'"
        "execs w' = execs w @ replicate (n - 1) steamId"
        "timers w' = timers w @ replicate (n - 1) 2000"
        "copies w' = copies w" "still_missing c steamId (fs w')"
    by blast
  have one: "int n - int (n - 1) = 1" using n by simp
  let ?w0 = "w'\<lparr>driver_calls := driver_calls w' @ [?m]\<rparr>"
  let ?out = "exec_script e (length (execs w) + (n - 1))"
  have idx: "length (execs ?w0) = length (execs w) + (n - 1)" using w'(2) by simp
  have "n - 1 < n" using n by simp
  with fails have "retryable_failure c steamId (exec_script e (length (execs w) + (n - 1)))"
    by blast
  with idx have f: "retryable_failure c steamId (exec_script e (length (execs ?w0)))"
    by (simp only:)
  have att: "fst (download_attempt c e ?m ?w0) = RetryOrReject (failure_message ?m ?out)"
       "execs (snd (download_attempt c e ?m ?w0)) = execs w' @ [steamId]"
       "timers (snd (download_attempt c e ?m ?w0)) = timers w'"
    using attempt_tool_fails [of c steamId ?w0 e modId modName] w'(5) mk f idx
    by simp_all
  have "downloadMod c e ?m 1 w' = (Inl (failure_message ?m ?out), snd (download_attempt c e ?m ?w0))"
    using downloadMod_Last [OF att(1), of 1] by simp
  with w'(1) one have res: "downloadMod c e ?m (int n) w
      = (Inl (failure_message ?m ?out), snd (download_attempt c e ?m ?w0))" by simp
  have rep: "replicate (n - 1) steamId @ [steamId] = replicate n steamId"
    using n by (cases n) (simp_all add: replicate_append_same)
  show ?thesis using res att(2,3) w'(2,3) rep by simp
qed

lemma downloadMod_succeeds_at:
  assumes miss: "still_missing c steamId (fs w)"
      and mk: "\<forall>j. mkdir_script e j = None"
      and k: "1 \<le> k" "k \<le> n"
      and before: "\<forall>i. Suc i < k \<longrightarrow>
                   retryable_failure c steamId (exec_script e (length (execs w) + i))
                   \<and> still_missing c steamId (fs_after (exec_script e (length (execs w) + i)))"
      and ok: "tool_succeeds c steamId (exec_script e (length (execs w) + (k - 1)))"
  shows "fst (downloadMod c e (modId, steamId, modName) (int n) w)
           = (case cp_script e (length (copies w)) of
                None \<Rightarrow> Inr () | Some err \<Rightarrow> Inl (Text err))
     \<and> execs (snd (downloadMod c e (modId, steamId, modName) (int n) w))
           = execs w @ replicate k steamId
     \<and> timers (snd (downloadMod c e (modId, steamId, modName) (int n) w))
           = timers w @ replicate (k - 1) 2000"
proof -
  let ?m = "(modId, steamId, modName)"
  have p2: "int (k - 1) < int n" using k by simp
  have p3: "\<forall>i<k - 1. retryable_failure c steamId (exec_script e (length (execs w) + i))
            \<and> still_missing c steamId (fs_after (exec_script e (length (execs w) + i)))"
    using before by (simp add: less_diff_conv)
  from downloadMod_skip_failures [OF mk miss p2 p3, of modId modName] obtain w' where
    w': "downloadMod c e ?m (int n) w = downloadMod c e ?m (int n - int (k - 1)) w'"
        "execs w' = execs w @ replicate (k - 1) steamId"
        "timers w' = timers w @ replicate (k - 1) 2000"
        "copies w' = copies w" "still_missing c steamId (fs w')"
    by blast
  let ?w0 = "w'\<lparr>driver_calls := driver_calls w' @ [?m]\<rparr>"
  have idx: "length (execs ?w0) = length (execs w) + (k - 1)" using w'(2) by simp
  have att: "fst (download_attempt c e ?m ?w0)
           = (case cp_script e (length (copies w)) of None \<Rightarrow> Resolved | Some err \<Rightarrow> Rejected (Text err))"
       "execs (snd (download_attempt c e ?m ?w0)) = execs w' @ [steamId]"
       "timers (snd (download_attempt c e ?m ?w0)) = timers w'"
    using attempt_tool_succeeds [of c steamId ?w0 e modId modName] w'(4,5) mk ok idx
    by simp_all
  have res: "downloadMod c e ?m (int n - int (k - 1)) w'
      = (case cp_script e (length (copies w)) of None \<Rightarrow> Inr () | Some err \<Rightarrow> Inl (Text err),
         snd (download_attempt c e ?m ?w0))"
  proof (cases "cp_script e (length (copies w))")
    case None
    with att(1) show ?thesis by (simp add: downloadMod_Resolved)
  next
    case (Some err)
    with att(1) show ?thesis by (simp add: downloadMod_Rejected)
  qed
  have rep: "replicate (k - 1) steamId @ [steamId] = replicate k steamId"
    using k(1) by (cases k) (simp_all add: replicate_append_same)
  show ?thesis using res w'(1) att(2,3) w'(2,3) rep by simp
qed

text \<open>
  Claim C2, as the code has it. The mod is missing, \<open>mkdirSync\<close> does not throw and
  \<open>retryCount\<close> is \<open>n \<ge> 1\<close>. If each of the \<open>n\<close> passes fails in one of the three
  ways (the process ends with an error, the output lacks the marker, the download is not
  where it should be) and the mod is still missing when the next pass looks, then
  \<open>downloadMod\<close> starts exactly \<open>n\<close> processes, sets the timer of 2000 ms between any
  two of them and rejects with the error of the last pass. If the tool first succeeds at
  pass \<open>k \<le> n\<close> and the copy of the download into the mods directory does not throw,
  exactly \<open>k\<close> processes are started, with \<open>k - 1\<close> timers, and the promise resolves;
  if that copy throws, the promise rejects with the copy's error after the \<open>k\<close> processes.
\<close>

theorem downloadMod_attempts:
  assumes miss: "still_missing c steamId (fs w)"
      and mk: "\<forall>j. mkdir_script e j = None"
      and n: "1 \<le> n"
  shows
    "((\<forall>i<n. retryable_failure c steamId (exec_script e (length (execs w) + i)))
       \<and> (\<forall>i. Suc i < n \<longrightarrow>
             still_missing c steamId (fs_after (exec_script e (length (execs w) + i))))
      \<longrightarrow> fst (downloadMod c e (modId, steamId, modName) (int n) w)
             = Inl (failure_message (modId, steamId, modName)
                      (exec_script e (length (execs w) + (n - 1))))
          \<and> execs (snd (downloadMod c e (modId, steamId, modName) (int n) w))
             = execs w @ replicate n steamId
          \<and> timers (snd (downloadMod c e (modId, steamId, modName) (int n) w))
             = timers w @ replicate (n - 1) 2000)
     \<and> (\<forall>k. 1 \<le> k \<and> k \<le> n
           \<and> (\<forall>i. Suc i < k \<longrightarrow>
                 retryable_failure c steamId (exec_script e (length (execs w) + i))
                 \<and> still_missing c steamId (fs_after (exec_script e (length (execs w) + i))))
           \<and> tool_succeeds c steamId (exec_script e (length (execs w) + (k - 1)))
           \<and> cp_script e (length (copies w)) = None
          \<longrightarrow> fst (downloadMod c e (modId, steamId, modName) (int n) w) = Inr ()
             \<and> execs (snd (downloadMod c e (modId, steamId, modName) (int n) w))
                = execs w @ replicate k steamId
             \<and> timers (snd (downloadMod c e (modId, steamId, modName) (int n) w))
                = timers w @ replicate (k - 1) 2000)
     \<and> (\<forall>k err. 1 \<le> k \<and> k \<le> n
           \<and> (\<forall>i. Suc i < k \<longrightarrow>
                 retryable_failure c steamId (exec_script e (length (execs w) + i))
                 \<and> still_missing c steamId (fs_after (exec_script e (length (execs w) + i))))
           \<and> tool_succeeds c steamId (exec_script e (length (execs w) + (k - 1)))
           \<and> cp_script e (length (copies w)) = Some err
          \<longrightarrow> fst (downloadMod c e (modId, steamId, modName) (int n) w) = Inl (Text err)
             \<and> execs (snd (downloadMod c e (modId, steamId, modName) (int n) w))
                = execs w @ replicate k steamId)"
proof (intro conjI impI allI)
  assume a: "(\<forall>i<n. retryable_failure c steamId (exec_script e (length (execs w) + i)))
       \<and> (\<forall>i. Suc i < n \<longrightarrow>
             still_missing c steamId (fs_after (exec_script e (length (execs w) + i))))"
  note r = downloadMod_all_fail [OF miss mk n conjunct1 [OF a] conjunct2 [OF a], of modId modName]
  show "fst (downloadMod c e (modId, steamId, modName) (int n) w)
             = Inl (failure_message (modId, steamId, modName)
                      (exec_script e (length (execs w) + (n - 1))))"
    using r by simp
  show "execs (snd (downloadMod c e (modId, steamId, modName) (int n) w))
             = execs w @ replicate n steamId"
    using r by simp
  show "timers (snd (downloadMod c e (modId, steamId, modName) (int n) w))
             = timers w @ replicate (n - 1) 2000"
    using r by simp
next
  fix k
  assume b: "1 \<le> k \<and> k \<le> n
           \<and> (\<forall>i. Suc i < k \<longrightarrow>
                 retryable_failure c steamId (exec_script e (length (execs w) + i))
                 \<and> still_missing c steamId (fs_after (exec_script e (length (execs w) + i))))
           \<and> tool_succeeds c steamId (exec_script e (length (execs w) + (k - 1)))
           \<and> cp_script e (length (copies w)) = None"
  then have k: "1 \<le> k" "k \<le> n"
    and before: "\<forall>i. Suc i < k \<longrightarrow>
                 retryable_failure c steamId (exec_script e (length (execs w) + i))
                 \<and> still_missing c steamId (fs_after (exec_script e (length (execs w) + i)))"
    and ok: "tool_succeeds c steamId (exec_script e (length (execs w) + (k - 1)))"
    and cp: "cp_script e (length (copies w)) = None"
    by blast+
  note r = downloadMod_succeeds_at [OF miss mk k before ok, of modId modName]
  show "fst (downloadMod c e (modId, steamId, modName) (int n) w) = Inr ()"
    using r cp by simp
  show "execs (snd (downloadMod c e (modId, steamId, modName) (int n) w))
                = execs w @ replicate k steamId"
    using r by simp
  show "timers (snd (downloadMod c e (modId, steamId, modName) (int n) w))
                = timers w @ replicate (k - 1) 2000"
    using r by simp
next
  fix k err
  assume b: "1 \<le> k \<and> k \<le> n
           \<and> (\<forall>i. Suc i < k \<longrightarrow>
                 retryable_failure c steamId (exec_script e (length (execs w) + i))
                 \<and> still_missing c steamId (fs_after (exec_script e (length (execs w) + i))))
           \<and> tool_succeeds c steamId (exec_script e (length (execs w) + (k - 1)))
           \<and> cp_script e (length (copies w)) = Some err"
  then have k: "1 \<le> k" "k \<le> n"
    and before: "\<forall>i. Suc i < k \<longrightarrow>
                 retryable_failure c steamId (exec_script e (length (execs w) + i))
                 \<and> still_missing c steamId (fs_after (exec_script e (length (execs w) + i)))"
    and ok: "tool_succeeds c steamId (exec_script e (length (execs w) + (k - 1)))"
    and cp: "cp_script e (length (copies w)) = Some err"
    by blast+
  note r = downloadMod_succeeds_at [OF miss mk k before ok, of modId modName]
  show "fst (downloadMod c e (modId, steamId, modName) (int n) w) = Inl (Text err)"
    using r cp by simp
  show "execs (snd (downloadMod c e (modId, steamId, modName) (int n) w))
                = execs w @ replicate k steamId"
    using r by simp
qed

lemma scenario_missing7:
  "still_missing cfg ''7'' (fs (fresh_world fs_mods_only))"
  "still_missing cfg ''7'' fs_mods_only"
  by (simp_all add: still_missing_def fresh_world_def fs_mods_only_def fs_of_def)

lemma scenario_failing_exec:
  "retryable_failure cfg ''7'' (failing_exec f)"
  "fs_after (failing_exec f) = f"
  "failure_message (''m'', ''7'', ''M'') (failing_exec f) = Text ''Command failed''"
  by (simp_all add: retryable_failure_def tool_succeeds_def failing_exec_def failure_message_def)

lemma scenario_good_exec:
  "tool_succeeds cfg ''7'' good_exec"
  by (simp add: tool_succeeds_def good_exec_def payload_present_def payload_path_def
        fs_downloaded_def fs_of_def)

lemma fresh_world_simps [simp]:
  "execs (fresh_world f) = []" "timers (fresh_world f) = []" "copies (fresh_world f) = []"
  "mkdirs (fresh_world f) = []" "requests (fresh_world f) = []" "errlog (fresh_world f) = []"
  "driver_calls (fresh_world f) = []" "classifier_calls (fresh_world f) = []"
  "writes (fresh_world f) = 0" "prompts (fresh_world f) = 0" "fs (fresh_world f) = f"
  "audit (fresh_world f) = (\<lambda>file. None)"
  by (simp_all add: fresh_world_def)

lemma quiet_env_simps [simp]:
  "mkdir_script (quiet_env f) = (\<lambda>i. None)" "cp_script (quiet_env f) = (\<lambda>i. None)"
  "write_script (quiet_env f) = (\<lambda>i. None)" "exec_script (quiet_env f) = (\<lambda>i. failing_exec f)"
  "http_script (quiet_env f) = (\<lambda>i. ResponseEnd [])"
  "engine_search (quiet_env f) = (\<lambda>modName data. Inr None)" "answer (quiet_env f) = ''y''"
  by (simp_all add: quiet_env_def)

text \<open>Mod 7 with three tries: every download fails (three processes, two timers, the last error), and the second download works (two processes, one timer).\<close>

theorem downloadMod_attempts_witness:
  "still_missing cfg ''7'' (fs (fresh_world fs_mods_only))
   \<and> fst (downloadMod cfg (quiet_env fs_mods_only) (''m'', ''7'', ''M'') 3 (fresh_world fs_mods_only))
       = Inl (Text ''Command failed'')
   \<and> execs (snd (downloadMod cfg (quiet_env fs_mods_only) (''m'', ''7'', ''M'') 3 (fresh_world fs_mods_only)))
       = [''7'', ''7'', ''7'']
   \<and> timers (snd (downloadMod cfg (quiet_env fs_mods_only) (''m'', ''7'', ''M'') 3 (fresh_world fs_mods_only)))
       = [2000, 2000]
   \<and> fst (downloadMod cfg env_second_ok (''m'', ''7'', ''M'') 3 (fresh_world fs_mods_only)) = Inr ()
   \<and> execs (snd (downloadMod cfg env_second_ok (''m'', ''7'', ''M'') 3 (fresh_world fs_mods_only)))
       = [''7'', ''7'']
   \<and> timers (snd (downloadMod cfg env_second_ok (''m'', ''7'', ''M'') 3 (fresh_world fs_mods_only)))
       = [2000]"
proof -
  let ?w = "fresh_world fs_mods_only"
  have mk1: "\<forall>j. mkdir_script (quiet_env fs_mods_only) j = None" by simp
  have mk2: "\<forall>j. mkdir_script env_second_ok j = None" by (simp add: env_second_ok_def)
  have n: "(1::nat) \<le> 3" by simp
  have f1: "(\<forall>i<3. retryable_failure cfg ''7''
               (exec_script (quiet_env fs_mods_only) (length (execs ?w) + i)))
       \<and> (\<forall>i. Suc i < 3 \<longrightarrow>
             still_missing cfg ''7''
               (fs_after (exec_script (quiet_env fs_mods_only) (length (execs ?w) + i))))"
    by (simp add: scenario_failing_exec scenario_missing7)
  have f2: "1 \<le> (2::nat) \<and> (2::nat) \<le> 3
           \<and> (\<forall>i. Suc i < 2 \<longrightarrow>
                 retryable_failure cfg ''7'' (exec_script env_second_ok (length (execs ?w) + i))
                 \<and> still_missing cfg ''7''
                     (fs_after (exec_script env_second_ok (length (execs ?w) + i))))
           \<and> tool_succeeds cfg ''7'' (exec_script env_second_ok (length (execs ?w) + (2 - 1)))
           \<and> cp_script env_second_ok (length (copies ?w)) = None"
    by (auto simp: env_second_ok_def scenario_failing_exec scenario_missing7 scenario_good_exec)
  note a = downloadMod_attempts [OF scenario_missing7(1) mk1 n, of "''m''" "''M''"]
  note b = downloadMod_attempts [OF scenario_missing7(1) mk2 n, of "''m''" "''M''"]
  from a f1 have r1: "fst (downloadMod cfg (quiet_env fs_mods_only) (''m'', ''7'', ''M'') (int 3) ?w)
             = Inl (failure_message (''m'', ''7'', ''M'')
                      (exec_script (quiet_env fs_mods_only) (length (execs ?w) + (3 - 1))))
          \<and> execs (snd (downloadMod cfg (quiet_env fs_mods_only) (''m'', ''7'', ''M'') (int 3) ?w))
             = execs ?w @ replicate 3 ''7''
          \<and> timers (snd (downloadMod cfg (quiet_env fs_mods_only) (''m'', ''7'', ''M'') (int 3) ?w))
             = timers ?w @ replicate (3 - 1) 2000"
    by blast
  from b f2 have r2: "fst (downloadMod cfg env_second_ok (''m'', ''7'', ''M'') (int 3) ?w) = Inr ()
             \<and> execs (snd (downloadMod cfg env_second_ok (''m'', ''7'', ''M'') (int 3) ?w))
                = execs ?w @ replicate 2 ''7''
             \<and> timers (snd (downloadMod cfg env_second_ok (''m'', ''7'', ''M'') (int 3) ?w))
                = timers ?w @ replicate (2 - 1) 2000"
    by blast
  have rep: "replicate 3 x = [x, x, x]" "replicate 2 x = [x, x]" "replicate (3 - 1) x = [x, x]"
    "replicate (2 - 1) x = [x]" for x :: 'a
    by (simp_all add: numeral_3_eq_3 numeral_2_eq_2)
  show ?thesis
    using r1 r2 scenario_missing7(1) by (simp add: rep scenario_failing_exec)
qed

text \<open>
  Claim C2 as it is written fails where the tool succeeds and the copy of line 228
  throws: at the first pass the process ends well, the marker and the download are there,
  and \<open>downloadMod\<close> rejects with the copy's error after one process.
\<close>

theorem download_copy_error_counterexample:
  "still_missing cfg ''7'' (fs (fresh_world fs_mods_only))
   \<and> tool_succeeds cfg ''7'' (exec_script env_download_copy_denied 0)
   \<and> fst (downloadMod cfg env_download_copy_denied (''m'', ''7'', ''M'') 3 (fresh_world fs_mods_only))
       = Inl (Text ''EACCES'')
   \<and> execs (snd (downloadMod cfg env_download_copy_denied (''m'', ''7'', ''M'') 3
                   (fresh_world fs_mods_only))) = [''7'']"
proof -
  let ?w = "fresh_world fs_mods_only"
  have mk: "\<forall>j. mkdir_script env_download_copy_denied j = None"
    by (simp add: env_download_copy_denied_def)
  have k: "(1::nat) \<le> 1" "(1::nat) \<le> 3" by simp_all
  have before: "\<forall>i. Suc i < 1 \<longrightarrow>
       retryable_failure cfg ''7'' (exec_script env_download_copy_denied (length (execs ?w) + i))
       \<and> still_missing cfg ''7''
           (fs_after (exec_script env_download_copy_denied (length (execs ?w) + i)))"
    by simp
  have ok: "tool_succeeds cfg ''7'' (exec_script env_download_copy_denied (length (execs ?w) + (1 - 1)))"
    by (simp add: env_download_copy_denied_def scenario_good_exec)
  note r = downloadMod_succeeds_at [OF scenario_missing7(1) mk k before ok, of "''m''" "''M''"]
  have cp: "cp_script env_download_copy_denied (length (copies ?w)) = Some ''EACCES''"
    by (simp add: env_download_copy_denied_def)
  show ?thesis using r cp ok scenario_missing7(1) by simp
qed

section \<open>The search by name\<close>

lemma findModByName_frame:
  "fs (snd (findModByName c e modName w)) = fs w"
  "execs (snd (findModByName c e modName w)) = execs w"
  "timers (snd (findModByName c e modName w)) = timers w"
  "copies (snd (findModByName c e modName w)) = copies w"
  "mkdirs (snd (findModByName c e modName w)) = mkdirs w"
  "driver_calls (snd (findModByName c e modName w)) = driver_calls w"
  "classifier_calls (snd (findModByName c e modName w)) = classifier_calls w"
  "writes (snd (findModByName c e modName w)) = writes w"
  "prompts (snd (findModByName c e modName w)) = prompts w"
  "audit (snd (findModByName c e modName w)) = audit w"
  by (simp_all add: findModByName_def https_get_def logError_def
        split: http_outcome.split sum.split option.split)

text \<open>
  For a plain name and a body without a match the search resolves with null, after one
  request and with one entry in the log.
\<close>

lemma findModByName_no_match:
  assumes "\<not> has_lone_surrogate modName" and "\<not> list_ex is_syntax_char modName"
      and "http_script e (length (requests w)) = ResponseEnd data"
      and "match_block (title_div modName) data = None"
  shows "findModByName c e modName w =
           (Inr None,
            logError ''0'' modName (NotInSearchResults modName) []
              (w\<lparr>requests := requests w @ [modName]\<rparr>))"
  using assms by (simp add: findModByName_def https_get_def search_block_def)

text \<open>
  Claim C5 says that the search returns NotFound, with one entry in the log, when an
  entry of the title exists and its link gives no id. The code does not: the pattern of
  line 69 begins at the first \<open>workshopItem\<close> of the page, not at the entry that has
  the title, so the block it cuts out runs from the first entry to the end of the entry
  with the title, and line 73 takes the first link of the block. On the page of two
  entries the entry titled Ghost has a link without an id, the entry before it links to
  111: the search for Ghost resolves with 111 and writes nothing to the log.
\<close>

theorem earlier_entry_id_returned:
  "http_script env_two_entries (length (requests (fresh_world fs_mods_only)))
     = ResponseEnd page_two_entries
   \<and> match_filedetails_id
         (entry ''https://steamcommunity.com/sharedfiles/filedetails/?id='' ''Ghost'') = None
   \<and> fst (findModByName cfg env_two_entries ''Ghost'' (fresh_world fs_mods_only))
       = Inr (Some ''111'')
   \<and> errlog (snd (findModByName cfg env_two_entries ''Ghost'' (fresh_world fs_mods_only))) = []"
proof -
  have b: "match_block (title_div ''Ghost'') page_two_entries
      = Some (entry ''https://steamcommunity.com/sharedfiles/filedetails/?id=111'' ''Other''
              @ entry ''https://steamcommunity.com/sharedfiles/filedetails/?id='' ''Ghost'')"
    by (simp add: page_two_entries_def entry_def title_div_def block_at_def
          workshopItem_class_def Let_def)
  have i: "match_filedetails_id
             (entry ''https://steamcommunity.com/sharedfiles/filedetails/?id=111'' ''Other''
              @ entry ''https://steamcommunity.com/sharedfiles/filedetails/?id='' ''Ghost'')
      = Some ''111''"
    by (simp add: entry_def title_div_def is_digit_def)
  have n: "match_filedetails_id
             (entry ''https://steamcommunity.com/sharedfiles/filedetails/?id='' ''Ghost'') = None"
    by (simp add: entry_def title_div_def is_digit_def)
  have h: "http_script env_two_entries (length (requests (fresh_world fs_mods_only)))
      = ResponseEnd page_two_entries"
    by (simp add: env_two_entries_def)
  have r: "findModByName cfg env_two_entries ''Ghost'' (fresh_world fs_mods_only)
      = (Inr (Some ''111''), (fresh_world fs_mods_only)\<lparr>requests := [''Ghost'']\<rparr>)"
    using h by (simp add: findModByName_def https_get_def search_block_def is_syntax_char_def b i)
  show ?thesis using h n r by simp
qed

section \<open>The analysis\<close>

lemma analysis_frame_refl [simp]: "analysis_frame w w"
  by (simp add: analysis_frame_def)

lemma analysis_frame_trans:
  "analysis_frame w w1 \<Longrightarrow> analysis_frame w1 w2 \<Longrightarrow> analysis_frame w w2"
  by (simp add: analysis_frame_def)

lemma check_presence_eq:
  "check_presence c (modId, steamId, modName) (mi, nf) w =
     ((if fs w (modsDirectory c @ [steamId]) \<noteq> Dir \<and> \<not> existsSync w (workshopDir c @ [steamId])
       then mi @ [(modId, steamId, modName)] else mi, nf),
      w\<lparr>classifier_calls :=
           classifier_calls w @ [ProbeInstalled modId steamId, ProbeSteamCmd steamId]\<rparr>)"
  by (simp add: check_presence_def isModInstalled_eq isModInSteamCmd_eq)

lemma findModByName_analysis_frame:
  "analysis_frame w (snd (findModByName c e modName w))"
  by (simp add: analysis_frame_def findModByName_frame)

lemma analyze_mod_frame:
  "analysis_frame w (snd (analyze_mod c e m acc w))"
proof -
  obtain modId steamId modName where m: "m = (modId, steamId, modName)" by (cases m) auto
  obtain mi nf where acc: "acc = (mi, nf)" by (cases acc) auto
  have f: "analysis_frame w (snd (findModByName c e modName w))"
    by (rule findModByName_analysis_frame)
  show ?thesis
    using f
    by (cases "findModByName c e modName w")
       (auto simp: m acc analyze_mod_def check_presence_eq analysis_frame_def
          split: sum.splits option.splits)
qed

lemma analyze_loop_frame:
  "analysis_frame w (snd (analyze_loop c e ms acc w))"
proof (induction ms arbitrary: acc w)
  case Nil
  show ?case by simp
next
  case (Cons m ms)
  obtain r w1 where s: "analyze_mod c e m acc w = (r, w1)" by (cases "analyze_mod c e m acc w")
  have f1: "analysis_frame w w1" using analyze_mod_frame [of w c e m acc] s by simp
  show ?case
  proof (cases r)
    case (Inl err)
    with s f1 show ?thesis by simp
  next
    case (Inr acc1)
    with s have "analyze_loop c e (m # ms) acc w = analyze_loop c e ms acc1 w1" by simp
    with Cons.IH [of w1 acc1] f1 show ?thesis by (simp add: analysis_frame_trans)
  qed
qed

lemma writeFile_frame:
  "fs (snd (writeFile e file mods w)) = fs w"
  "execs (snd (writeFile e file mods w)) = execs w"
  "timers (snd (writeFile e file mods w)) = timers w"
  "copies (snd (writeFile e file mods w)) = copies w"
  "mkdirs (snd (writeFile e file mods w)) = mkdirs w"
  "driver_calls (snd (writeFile e file mods w)) = driver_calls w"
  "classifier_calls (snd (writeFile e file mods w)) = classifier_calls w"
  "requests (snd (writeFile e file mods w)) = requests w"
  "prompts (snd (writeFile e file mods w)) = prompts w"
  "errlog (snd (writeFile e file mods w)) = errlog w"
  "writes (snd (writeFile e file mods w)) = writes w + 1"
  by (simp_all add: writeFile_def split: option.split)

lemma analyzeMods_frame:
  "fs (snd (analyzeMods c e mods w)) = fs w"
  "execs (snd (analyzeMods c e mods w)) = execs w"
  "timers (snd (analyzeMods c e mods w)) = timers w"
  "copies (snd (analyzeMods c e mods w)) = copies w"
  "mkdirs (snd (analyzeMods c e mods w)) = mkdirs w"
  "driver_calls (snd (analyzeMods c e mods w)) = driver_calls w"
  "prompts (snd (analyzeMods c e mods w)) = prompts w"
  using analyze_loop_frame [of w c e mods "([], [])"]
  by (simp_all add: analyzeMods_def writeModsToFile_def analysis_frame_def writeFile_frame
        case_prod_beta split: sum.split)

lemma toLowerCase_char_y:
  "toLowerCase_char ch = CHR ''y'' \<longleftrightarrow> ch = CHR ''y'' \<or> ch = CHR ''Y''"
  by (simp add: toLowerCase_char_def)

lemma toLowerCase_y: "toLowerCase s = ''y'' \<longleftrightarrow> s = ''y'' \<or> s = ''Y''"
  by (cases s) (auto simp: toLowerCase_def toLowerCase_char_y)

lemma list_all_success_maps [simp]:
  "list_all success (map skipped_outcome ms)"
  "list_all success (map (failed_outcome err) ms) = (ms = [])"
  by (induction ms) (auto simp: skipped_outcome_def failed_outcome_def split: prod.splits)

lemma analyzeMods_Nil_missing:
  "fst (analyzeMods c e [] w) = Inr (mi, nf) \<Longrightarrow> mi = []"
  by (auto simp: analyzeMods_def writeModsToFile_def case_prod_beta split: sum.splits)

lemmas run_defs =
  analyzeMods_def analyze_mod_def is_core_def coreModNames_def toLowerCase_def
  toLowerCase_char_def check_presence_eq writeModsToFile_def writeFile_def findModByName_def
  search_block_def is_syntax_char_def https_get_def logError_def existsSync_def fs_of_def
  question_def

section \<open>The report of downloadMods\<close>

text \<open>
  Claim C3. The analysis has returned a missing list that is not empty, and the line the
  user types is neither \<open>y\<close> nor \<open>Y\<close>. Then \<open>downloadMods\<close> returns a report with
  \<open>success\<close> false and, for every mod of the input in order, a failed outcome whose
  error is the cancellation text; no process was started, \<open>downloadMod\<close> was not
  entered, no timer was set, and the user was asked once.
\<close>

theorem declined_download:
  assumes an: "fst (analyzeMods c e mods w) = Inr (missingMods, notFoundMods)"
      and ne: "missingMods \<noteq> []"
      and no: "answer e \<noteq> ''y''" "answer e \<noteq> ''Y''"
  shows "rep_success (fst (downloadMods c e mods w)) = False
     \<and> results (fst (downloadMods c e mods w)) = map (failed_outcome CancelledByUser) mods
     \<and> length (results (fst (downloadMods c e mods w))) = length mods
     \<and> (\<forall>r \<in> set (results (fst (downloadMods c e mods w))).
           success r = False \<and> error r = Some CancelledByUser)
     \<and> execs (snd (downloadMods c e mods w)) = execs w
     \<and> driver_calls (snd (downloadMods c e mods w)) = driver_calls w
     \<and> timers (snd (downloadMods c e mods w)) = timers w
     \<and> prompts (snd (downloadMods c e mods w)) = prompts w + 1"
proof -
  from no have low: "toLowerCase (answer e) \<noteq> ''y''" by (simp add: toLowerCase_y)
  have eq: "downloadMods c e mods w
      = (\<lparr>rep_success = False, results = map (failed_outcome CancelledByUser) mods\<rparr>,
         (snd (analyzeMods c e mods w))\<lparr>prompts := prompts (snd (analyzeMods c e mods w)) + 1\<rparr>)"
    using an ne low
    by (cases "analyzeMods c e mods w") (simp add: downloadMods_def question_def)
  show ?thesis
    by (auto simp: eq analyzeMods_frame failed_outcome_def split: prod.splits)
qed

text \<open>Mod 7 is missing and the user types n.\<close>

theorem declined_download_witness:
  "fst (analyzeMods cfg env_says_no [(''b'', ''7'', ''M'')] (fresh_world fs_mods_only))
     = Inr ([(''b'', ''7'', ''M'')], [])
   \<and> answer env_says_no = ''n''
   \<and> fst (downloadMods cfg env_says_no [(''b'', ''7'', ''M'')] (fresh_world fs_mods_only))
       = \<lparr>rep_success = False, results = [failed_outcome CancelledByUser (''b'', ''7'', ''M'')]\<rparr>
   \<and> execs (snd (downloadMods cfg env_says_no [(''b'', ''7'', ''M'')] (fresh_world fs_mods_only))) = []
   \<and> prompts (snd (downloadMods cfg env_says_no [(''b'', ''7'', ''M'')] (fresh_world fs_mods_only))) = 1"
proof -
  have an: "fst (analyzeMods cfg env_says_no [(''b'', ''7'', ''M'')] (fresh_world fs_mods_only))
     = Inr ([(''b'', ''7'', ''M'')], [])"
    by (simp add: run_defs env_says_no_def fs_mods_only_def)
  have ne: "[(''b'', ''7'', ''M'')] \<noteq> ([] :: moditem list)" by simp
  have no: "answer env_says_no \<noteq> ''y''" "answer env_says_no \<noteq> ''Y''"
    by (simp_all add: env_says_no_def)
  from declined_download [OF an ne no] an show ?thesis
    by (cases "fst (downloadMods cfg env_says_no [(''b'', ''7'', ''M'')] (fresh_world fs_mods_only))")
       (simp add: env_says_no_def)
qed

lemma analyze_loop_all_present:
  assumes known: "\<forall>m \<in> set ms. fst (snd m) \<noteq> ''0''"
      and present: "\<forall>m \<in> set ms. fs w (modsDirectory c @ [fst (snd m)]) = Dir
                       \<or> existsSync w (workshopDir c @ [fst (snd m)])"
  shows "fst (analyze_loop c e ms acc w) = Inr acc
     \<and> requests (snd (analyze_loop c e ms acc w)) = requests w
     \<and> errlog (snd (analyze_loop c e ms acc w)) = errlog w"
  using assms
proof (induction ms arbitrary: w)
  case Nil
  show ?case by simp
next
  case (Cons m ms)
  obtain modId steamId modName where m: "m = (modId, steamId, modName)" by (cases m) auto
  obtain mi nf where acc: "acc = (mi, nf)" by (cases acc) auto
  from Cons.prems m have k: "steamId \<noteq> ''0''"
    and p: "fs w (modsDirectory c @ [steamId]) = Dir \<or> existsSync w (workshopDir c @ [steamId])"
    by simp_all
  let ?w1 = "snd (analyze_mod c e m acc w)"
  have step: "fst (analyze_mod c e m acc w) = Inr acc" "requests ?w1 = requests w"
    "errlog ?w1 = errlog w" "fs ?w1 = fs w"
    using k p by (auto simp: m acc analyze_mod_def check_presence_eq)
  have p1: "\<forall>m \<in> set ms. fs ?w1 (modsDirectory c @ [fst (snd m)]) = Dir
                       \<or> existsSync ?w1 (workshopDir c @ [fst (snd m)])"
    using Cons.prems(2) step(4) by (simp add: existsSync_def)
  have k1: "\<forall>m \<in> set ms. fst (snd m) \<noteq> ''0''" using Cons.prems(1) by simp
  have unfold: "analyze_loop c e (m # ms) acc w = analyze_loop c e ms acc ?w1"
    using step(1) by (cases "analyze_mod c e m acc w") simp
  show ?case using Cons.IH [OF k1 p1] step unfold by simp
qed

text \<open>
  Claim C4, as the code has it. Every mod has a Steam id other than 0 and is installed or
  in the cache, and both audit files can be written. Then \<open>downloadMods\<close> returns a
  report with \<open>success\<close> true and, for every mod of the input in order, a skipped
  success with the reason "already installed"; the user was not asked, no process was
  started, no request was made, and both audit files hold the empty list.
\<close>

theorem nothing_missing_returns_at_once:
  assumes known: "\<forall>m \<in> set mods. fst (snd m) \<noteq> ''0''"
      and present: "\<forall>m \<in> set mods. fs w (modsDirectory c @ [fst (snd m)]) = Dir
                       \<or> existsSync w (workshopDir c @ [fst (snd m)])"
      and written: "write_script e (writes w) = None" "write_script e (Suc (writes w)) = None"
  shows "fst (downloadMods c e mods w)
           = \<lparr>rep_success = True, results = map skipped_outcome mods\<rparr>
     \<and> (\<forall>r \<in> set (results (fst (downloadMods c e mods w))).
           success r \<and> skipped r = Some True \<and> reason r = Some AlreadyInstalled)
     \<and> prompts (snd (downloadMods c e mods w)) = prompts w
     \<and> execs (snd (downloadMods c e mods w)) = execs w
     \<and> requests (snd (downloadMods c e mods w)) = requests w
     \<and> timers (snd (downloadMods c e mods w)) = timers w
     \<and> driver_calls (snd (downloadMods c e mods w)) = driver_calls w
     \<and> audit (snd (downloadMods c e mods w)) MissingModsFile = Some []
     \<and> audit (snd (downloadMods c e mods w)) NotFoundModsFile = Some []"
proof -
  let ?l = "analyze_loop c e mods ([], []) w"
  note lp = analyze_loop_all_present [OF known present, of e "([], [])"]
  note fr = analyze_loop_frame [of w c e mods "([], [])", unfolded analysis_frame_def]
  have wr: "write_script e (writes (snd ?l)) = None" "write_script e (Suc (writes (snd ?l))) = None"
    using written fr by simp_all
  have an: "fst (analyzeMods c e mods w) = Inr ([], [])"
    "requests (snd (analyzeMods c e mods w)) = requests w"
    "audit (snd (analyzeMods c e mods w)) MissingModsFile = Some []"
    "audit (snd (analyzeMods c e mods w)) NotFoundModsFile = Some []"
    using lp wr
    by (cases ?l; simp add: analyzeMods_def writeModsToFile_def writeFile_def)+
  have eq: "downloadMods c e mods w
      = (\<lparr>rep_success = True, results = map skipped_outcome mods\<rparr>, snd (analyzeMods c e mods w))"
    using an(1) by (cases "analyzeMods c e mods w") (simp add: downloadMods_def)
  show ?thesis
    by (auto simp: eq an analyzeMods_frame skipped_outcome_def split: prod.splits)
qed

text \<open>The one mod is installed.\<close>

theorem nothing_missing_witness:
  "fs (fresh_world fs_installed1) (modsDirectory cfg @ [''1'']) = Dir
   \<and> fst (downloadMods cfg (quiet_env fs_installed1) [(''a'', ''1'', ''A'')] (fresh_world fs_installed1))
       = \<lparr>rep_success = True, results = [skipped_outcome (''a'', ''1'', ''A'')]\<rparr>
   \<and> prompts (snd (downloadMods cfg (quiet_env fs_installed1) [(''a'', ''1'', ''A'')]
                      (fresh_world fs_installed1))) = 0
   \<and> execs (snd (downloadMods cfg (quiet_env fs_installed1) [(''a'', ''1'', ''A'')]
                      (fresh_world fs_installed1))) = []
   \<and> requests (snd (downloadMods cfg (quiet_env fs_installed1) [(''a'', ''1'', ''A'')]
                      (fresh_world fs_installed1))) = []"
proof -
  let ?w = "fresh_world fs_installed1"
  let ?e = "quiet_env fs_installed1"
  have i: "fs ?w (modsDirectory cfg @ [''1'']) = Dir"
    by (simp add: fs_installed1_def fs_of_def)
  have known: "\<forall>m \<in> set [(''a'', ''1'', ''A'')]. fst (snd m) \<noteq> ''0''" by simp
  have present: "\<forall>m \<in> set [(''a'', ''1'', ''A'')].
       fs ?w (modsDirectory cfg @ [fst (snd m)]) = Dir
       \<or> existsSync ?w (workshopDir cfg @ [fst (snd m)])"
    using i by simp
  have written: "write_script ?e (writes ?w) = None" "write_script ?e (Suc (writes ?w)) = None"
    by simp_all
  from nothing_missing_returns_at_once [OF known present written] i
  show ?thesis by simp
qed

text \<open>
  Claim C4 as it is written fails where an audit file cannot be written: the one mod is
  installed, \<open>writeFile\<close> rejects, and the \<open>catch\<close> of line 449 returns a report with
  \<open>success\<close> false.
\<close>

theorem audit_write_error_counterexample:
  "fs (fresh_world fs_installed1) (modsDirectory cfg @ [''1'']) = Dir
   \<and> fst (downloadMods cfg env_write_denied [(''a'', ''1'', ''A'')] (fresh_world fs_installed1))
       = \<lparr>rep_success = False,
          results = [failed_outcome GeneralDownloadError (''a'', ''1'', ''A'')]\<rparr>"
  by (simp add: downloadMods_def run_defs env_write_denied_def fs_installed1_def)

text \<open>
  Claim C9, as the code has it. On every return path but one, \<open>success\<close> of the report is
  the conjunction of \<open>success\<close> over its outcomes: whenever the input is not empty, and
  whenever the analysis returned. (The path left out is the \<open>catch\<close> of line 449 on an
  empty input.)
\<close>

theorem overall_success_is_conjunction:
  assumes "mods \<noteq> [] \<or> (\<exists>r. fst (analyzeMods c e mods w) = Inr r)"
  shows "rep_success (fst (downloadMods c e mods w))
           = list_all success (results (fst (downloadMods c e mods w)))"
proof (cases "fst (analyzeMods c e mods w)")
  case (Inl err)
  with assms have "mods \<noteq> []" by auto
  with Inl show ?thesis
    by (cases "analyzeMods c e mods w") (simp add: downloadMods_def)
next
  case (Inr r)
  obtain mi nf where r: "r = (mi, nf)" by (cases r) auto
  have ne: "mi \<noteq> [] \<Longrightarrow> mods \<noteq> []"
    using Inr r analyzeMods_Nil_missing [of c e w mi nf] by auto
  show ?thesis
    using Inr r ne
    by (cases "analyzeMods c e mods w")
       (auto simp: downloadMods_def question_def case_prod_beta)
qed

text \<open>A run that ends in the catch of line 449 with one mod.\<close>

theorem overall_success_witness:
  "rep_success (fst (downloadMods cfg env_write_denied [(''a'', ''1'', ''A'')] (fresh_world fs_installed1)))
     = list_all success
         (results (fst (downloadMods cfg env_write_denied [(''a'', ''1'', ''A'')]
                          (fresh_world fs_installed1))))
   \<and> rep_success (fst (downloadMods cfg env_write_denied [(''a'', ''1'', ''A'')]
                          (fresh_world fs_installed1))) = False"
proof -
  have "[(''a'', ''1'', ''A'')] \<noteq> ([] :: moditem list)
     \<or> (\<exists>r. fst (analyzeMods cfg env_write_denied [(''a'', ''1'', ''A'')] (fresh_world fs_installed1)) = Inr r)"
    by simp
  from overall_success_is_conjunction [OF this]
  have a: "rep_success (fst (downloadMods cfg env_write_denied [(''a'', ''1'', ''A'')] (fresh_world fs_installed1)))
     = list_all success
         (results (fst (downloadMods cfg env_write_denied [(''a'', ''1'', ''A'')]
                          (fresh_world fs_installed1))))" .
  have b: "rep_success (fst (downloadMods cfg env_write_denied [(''a'', ''1'', ''A'')]
                          (fresh_world fs_installed1))) = False"
    by (simp add: downloadMods_def run_defs env_write_denied_def fs_installed1_def)
  from a b show ?thesis by (rule conjI)
qed

text \<open>
  Claim C9 as it is written fails on the empty input when an audit file cannot be
  written: the report has \<open>success\<close> false and no outcome, and the conjunction over no
  outcome is true.
\<close>

theorem empty_run_error_counterexample:
  "rep_success (fst (downloadMods cfg env_write_denied [] (fresh_world fs_installed1))) = False
   \<and> results (fst (downloadMods cfg env_write_denied [] (fresh_world fs_installed1))) = []
   \<and> list_all success
        (results (fst (downloadMods cfg env_write_denied [] (fresh_world fs_installed1)))) = True"
  by (simp add: downloadMods_def run_defs env_write_denied_def)


section \<open>Which mods the report holds\<close>

lemma analyze_mod_lists:
  assumes "fst (analyze_mod c e m (mi0, nf0) w) = Inr (mi, nf)"
  shows "(mi = mi0 \<or> (\<exists>sid. mi = mi0 @ [(fst m, sid, snd (snd m))]))
       \<and> (nf = nf0 \<or> nf = nf0 @ [m])"
proof -
  obtain modId steamId modName where m: "m = (modId, steamId, modName)" by (cases m) auto
  show ?thesis
    using assms
    by (cases "findModByName c e modName w")
       (auto simp: m analyze_mod_def check_presence_eq split: if_splits sum.splits option.splits)
qed

lemma analyze_loop_lists:
  "fst (analyze_loop c e ms (mi0, nf0) w) = Inr (mi, nf) \<Longrightarrow>
   \<exists>mi' nf'. mi = mi0 @ mi' \<and> nf = nf0 @ nf' \<and> set nf' \<subseteq> set ms
       \<and> subseq (map fst mi') (map fst ms)"
proof (induction ms arbitrary: mi0 nf0 w)
  case Nil
  then show ?case by simp
next
  case (Cons m ms)
  obtain r w1 where s: "analyze_mod c e m (mi0, nf0) w = (r, w1)"
    by (cases "analyze_mod c e m (mi0, nf0) w")
  show ?case
  proof (cases r)
    case (Inl err)
    with s Cons.prems show ?thesis by simp
  next
    case (Inr acc1)
    obtain mi1 nf1 where acc1: "acc1 = (mi1, nf1)" by (cases acc1) auto
    from s Inr acc1 have st: "fst (analyze_mod c e m (mi0, nf0) w) = Inr (mi1, nf1)" by simp
    from s Inr acc1 Cons.prems have "fst (analyze_loop c e ms (mi1, nf1) w1) = Inr (mi, nf)"
      by simp
    from Cons.IH [OF this] obtain mi' nf' where
      ih: "mi = mi1 @ mi'" "nf = nf1 @ nf'" "set nf' \<subseteq> set ms" "subseq (map fst mi') (map fst ms)"
      by blast
    from analyze_mod_lists [OF st]
    have a: "mi1 = mi0 \<or> (\<exists>sid. mi1 = mi0 @ [(fst m, sid, snd (snd m))])"
      and b: "nf1 = nf0 \<or> nf1 = nf0 @ [m]" by simp_all
    have "\<exists>x. mi1 = mi0 @ x \<and> subseq (map fst (x @ mi')) (map fst (m # ms))"
      using a ih(4) by auto
    then obtain x where x: "mi1 = mi0 @ x" "subseq (map fst (x @ mi')) (map fst (m # ms))"
      by blast
    have "\<exists>y. nf1 = nf0 @ y \<and> set (y @ nf') \<subseteq> set (m # ms)"
      using b ih(3) by auto
    then obtain y where y: "nf1 = nf0 @ y" "set (y @ nf') \<subseteq> set (m # ms)"
      by blast
    show ?thesis
      using x y ih(1,2) by (intro exI [of _ "x @ mi'"] exI [of _ "y @ nf'"]) simp
  qed
qed

lemma analyzeMods_loop:
  "fst (analyzeMods c e mods w) = Inr r \<Longrightarrow> fst (analyze_loop c e mods ([], []) w) = Inr r"
  by (auto simp: analyzeMods_def case_prod_beta split: sum.splits)

lemma analyzeMods_lists:
  assumes "fst (analyzeMods c e mods w) = Inr (mi, nf)"
  shows "set nf \<subseteq> set mods" "subseq (map fst mi) (map fst mods)"
  using analyze_loop_lists [OF analyzeMods_loop [OF assms]] by auto

lemma download_loop_ids:
  "map out_id (fst (download_loop c e ms rs w)) = map out_id rs @ map fst ms"
proof (induction ms arbitrary: rs w)
  case Nil
  show ?case by simp
next
  case (Cons m ms)
  show ?case
    by (cases "downloadMod c e m 3 w"; cases "fst (downloadMod c e m 3 w)")
       (auto simp: Cons.IH downloaded_outcome_def failed_outcome_def split: prod.splits)
qed

lemma download_loop_length:
  "length (fst (download_loop c e ms rs w)) = length rs + length ms"
  using arg_cong [OF download_loop_ids [of c e ms rs w], of length] by simp

lemma download_loop_not_skipped:
  "\<forall>r \<in> set rs. out_id r \<in> S \<Longrightarrow>
   \<forall>r \<in> set (fst (download_loop c e ms rs w)). out_id r \<in> S \<union> fst ` set ms"
proof -
  assume a: "\<forall>r \<in> set rs. out_id r \<in> S"
  have eq: "out_id ` set (fst (download_loop c e ms rs w)) = out_id ` set rs \<union> fst ` set ms"
    using arg_cong [OF download_loop_ids [of c e ms rs w], of set] by simp
  show ?thesis
  proof
    fix r assume "r \<in> set (fst (download_loop c e ms rs w))"
    then have "out_id r \<in> out_id ` set (fst (download_loop c e ms rs w))" by (rule imageI)
    with eq have "out_id r \<in> out_id ` set rs \<union> fst ` set ms" by simp
    with a show "out_id r \<in> S \<union> fst ` set ms" by auto
  qed
qed

text \<open>
  Claim C10, as the code has it. A mod that the analysis put on the not-found list is
  reported as a skipped success with the reason "already installed" on the path that
  returns at once (the missing list is empty; then \<open>success\<close> of the report is true), and
  on the path after the downloads (the user says yes) when no missing mod has the same
  \<open>modId\<close>: then each outcome of the report with that \<open>modId\<close> is such a skipped
  success, and there is one.
\<close>

theorem unresolved_reported_as_installed:
  assumes an: "fst (analyzeMods c e mods w) = Inr (missingMods, notFoundMods)"
      and m: "m \<in> set notFoundMods"
      and path: "missingMods = []
                 \<or> ((answer e = ''y'' \<or> answer e = ''Y'') \<and> fst m \<notin> fst ` set missingMods)"
  shows "skipped_outcome m \<in> set (results (fst (downloadMods c e mods w)))
     \<and> (\<forall>r \<in> set (results (fst (downloadMods c e mods w))).
           out_id r = fst m \<longrightarrow>
             success r \<and> skipped r = Some True \<and> reason r = Some AlreadyInstalled)
     \<and> (missingMods = [] \<longrightarrow> rep_success (fst (downloadMods c e mods w)) = True)"
proof -
  from analyzeMods_lists(1) [OF an] m have inm: "m \<in> set mods" by blast
  have sk: "success (skipped_outcome x) \<and> skipped (skipped_outcome x) = Some True
            \<and> reason (skipped_outcome x) = Some AlreadyInstalled" for x
    by (simp add: skipped_outcome_def split: prod.splits)
  show ?thesis
  proof (cases "missingMods = []")
    case True
    have eq: "fst (downloadMods c e mods w)
        = \<lparr>rep_success = True, results = map skipped_outcome mods\<rparr>"
      using an True by (cases "analyzeMods c e mods w") (simp add: downloadMods_def)
    show ?thesis using inm sk by (auto simp: eq)
  next
    case False
    with path have yes: "toLowerCase (answer e) = ''y''"
      and fresh: "fst m \<notin> fst ` set missingMods"
      by (auto simp: toLowerCase_y)
    let ?w2 = "snd (question e (snd (analyzeMods c e mods w)))"
    let ?rs = "fst (download_loop c e missingMods [] ?w2)"
    let ?rest = "filter (\<lambda>x. \<not> list_ex (\<lambda>mm. fst mm = fst x) missingMods) mods"
    have eq: "results (fst (downloadMods c e mods w)) = ?rs @ map skipped_outcome ?rest"
      using an False yes
      by (cases "analyzeMods c e mods w")
         (simp add: downloadMods_def question_def case_prod_beta)
    have keep: "m \<in> set ?rest"
      using inm fresh by (auto simp: list_ex_iff image_iff)
    have ids: "\<forall>r \<in> set ?rs. out_id r \<in> fst ` set missingMods"
      using download_loop_not_skipped [of "[]" "{}" c e missingMods ?w2] by simp
    have a: "skipped_outcome m \<in> set (results (fst (downloadMods c e mods w)))"
      using keep by (simp add: eq)
    have b: "\<forall>r \<in> set (results (fst (downloadMods c e mods w))).
           out_id r = fst m \<longrightarrow>
             success r \<and> skipped r = Some True \<and> reason r = Some AlreadyInstalled"
    proof (intro ballI impI)
      fix r
      assume r: "r \<in> set (results (fst (downloadMods c e mods w)))" and i: "out_id r = fst m"
      from r eq have "r \<in> set ?rs \<or> r \<in> skipped_outcome ` set ?rest" by simp
      then show "success r \<and> skipped r = Some True \<and> reason r = Some AlreadyInstalled"
      proof
        assume "r \<in> set ?rs"
        with ids have "out_id r \<in> fst ` set missingMods" by blast
        with i fresh show ?thesis by simp
      next
        assume "r \<in> skipped_outcome ` set ?rest"
        then obtain x where "r = skipped_outcome x" by blast
        with sk [of x] show ?thesis by simp
      qed
    qed
    show ?thesis using a b False by blast
  qed
qed

text \<open>Ghost is not found: alone, and beside the missing mod 7 with a user who says yes.\<close>

theorem unresolved_reported_witness:
  "fst (findModByName cfg (quiet_env fs_mods_only) ''Ghost'' (fresh_world fs_mods_only)) = Inr None
   \<and> fst (analyzeMods cfg (quiet_env fs_mods_only) [(''a'', ''0'', ''Ghost'')] (fresh_world fs_mods_only))
       = Inr ([], [(''a'', ''0'', ''Ghost'')])
   \<and> skipped_outcome (''a'', ''0'', ''Ghost'')
       \<in> set (results (fst (downloadMods cfg (quiet_env fs_mods_only) [(''a'', ''0'', ''Ghost'')]
                               (fresh_world fs_mods_only))))
   \<and> rep_success (fst (downloadMods cfg (quiet_env fs_mods_only) [(''a'', ''0'', ''Ghost'')]
                          (fresh_world fs_mods_only))) = True
   \<and> fst (analyzeMods cfg (quiet_env fs_mods_only) [(''a'', ''0'', ''Ghost''), (''b'', ''7'', ''M'')]
            (fresh_world fs_mods_only))
       = Inr ([(''b'', ''7'', ''M'')], [(''a'', ''0'', ''Ghost'')])
   \<and> skipped_outcome (''a'', ''0'', ''Ghost'')
       \<in> set (results (fst (downloadMods cfg (quiet_env fs_mods_only)
                               [(''a'', ''0'', ''Ghost''), (''b'', ''7'', ''M'')]
                               (fresh_world fs_mods_only))))"
proof -
  let ?e = "quiet_env fs_mods_only"
  let ?w = "fresh_world fs_mods_only"
  let ?g = "(''a'', ''0'', ''Ghost'')"
  have f: "fst (findModByName cfg ?e ''Ghost'' ?w) = Inr None"
    by (simp add: findModByName_def https_get_def search_block_def is_syntax_char_def)
  have an1: "fst (analyzeMods cfg ?e [?g] ?w) = Inr ([], [?g])"
    by (simp add: run_defs fs_mods_only_def)
  have an2: "fst (analyzeMods cfg ?e [?g, (''b'', ''7'', ''M'')] ?w)
       = Inr ([(''b'', ''7'', ''M'')], [?g])"
    by (simp add: run_defs fs_mods_only_def)
  have m: "?g \<in> set [?g]" by simp
  have p1: "([] :: moditem list) = []
     \<or> ((answer ?e = ''y'' \<or> answer ?e = ''Y'') \<and> fst ?g \<notin> fst ` set ([] :: moditem list))"
    by simp
  have p2: "[(''b'', ''7'', ''M'')] = ([] :: moditem list)
     \<or> ((answer ?e = ''y'' \<or> answer ?e = ''Y'') \<and> fst ?g \<notin> fst ` set [(''b'', ''7'', ''M'')])"
    by simp
  note r1 = unresolved_reported_as_installed [OF an1 m p1]
  note r2 = unresolved_reported_as_installed [OF an2 m p2]
  from r1 have a: "skipped_outcome ?g \<in> set (results (fst (downloadMods cfg ?e [?g] ?w)))"
    and b: "rep_success (fst (downloadMods cfg ?e [?g] ?w)) = True" by simp_all
  from r2 have c: "skipped_outcome ?g
       \<in> set (results (fst (downloadMods cfg ?e [?g, (''b'', ''7'', ''M'')] ?w)))" by simp
  from f an1 a b an2 c show ?thesis by blast
qed

text \<open>
  Claim C10 as it is written (for every run) fails where the user declines: the search for
  Ghost finds nothing, mod 7 is missing, the user says no, and the outcome of Ghost is a
  failure with the cancellation text.
\<close>

theorem unresolved_declined_counterexample:
  "fst (findModByName cfg env_says_no ''Ghost'' (fresh_world fs_mods_only)) = Inr None
   \<and> fst (analyzeMods cfg env_says_no [(''a'', ''0'', ''Ghost''), (''b'', ''7'', ''M'')]
            (fresh_world fs_mods_only))
       = Inr ([(''b'', ''7'', ''M'')], [(''a'', ''0'', ''Ghost'')])
   \<and> results (fst (downloadMods cfg env_says_no [(''a'', ''0'', ''Ghost''), (''b'', ''7'', ''M'')]
                      (fresh_world fs_mods_only)))
       = [failed_outcome CancelledByUser (''a'', ''0'', ''Ghost''),
          failed_outcome CancelledByUser (''b'', ''7'', ''M'')]
   \<and> success (failed_outcome CancelledByUser (''a'', ''0'', ''Ghost'')) = False"
  by (simp add: downloadMods_def run_defs env_says_no_def fs_mods_only_def failed_outcome_def)

text \<open>
  Claim C1 against the code. Two mods of the input share the \<open>modId\<close> a; the first is
  installed, the second is missing; the user says yes. The filter of line 436 compares
  \<open>modId\<close>s, so it removes both from the mods that are reported as installed: the report
  has one outcome, for B, and none for A.
\<close>

theorem shared_id_drops_an_item:
  "fst (analyzeMods cfg (quiet_env fs_installed1) [(''a'', ''1'', ''A''), (''a'', ''7'', ''B'')]
          (fresh_world fs_installed1))
     = Inr ([(''a'', ''7'', ''B'')], [])
   \<and> answer (quiet_env fs_installed1) = ''y''
   \<and> length (results (fst (downloadMods cfg (quiet_env fs_installed1)
                              [(''a'', ''1'', ''A''), (''a'', ''7'', ''B'')]
                              (fresh_world fs_installed1)))) = 1
   \<and> map out_name (results (fst (downloadMods cfg (quiet_env fs_installed1)
                              [(''a'', ''1'', ''A''), (''a'', ''7'', ''B'')]
                              (fresh_world fs_installed1)))) = [''B'']"
proof -
  let ?e = "quiet_env fs_installed1"
  let ?w = "fresh_world fs_installed1"
  let ?mods = "[(''a'', ''1'', ''A''), (''a'', ''7'', ''B'')]"
  have an: "fst (analyzeMods cfg ?e ?mods ?w) = Inr ([(''a'', ''7'', ''B'')], [])"
    by (simp add: run_defs fs_installed1_def)
  let ?w2 = "snd (question ?e (snd (analyzeMods cfg ?e ?mods ?w)))"
  let ?rs = "fst (download_loop cfg ?e [(''a'', ''7'', ''B'')] [] ?w2)"
  have eq: "results (fst (downloadMods cfg ?e ?mods ?w)) = ?rs"
    using an
    by (cases "analyzeMods cfg ?e ?mods ?w")
       (simp add: downloadMods_def question_def case_prod_beta toLowerCase_y)
  have len: "length ?rs = 1"
    using download_loop_length [of cfg ?e "[(''a'', ''7'', ''B'')]" "[]" ?w2]
    by (simp del: download_loop.simps)
  have nm: "map out_name ?rs = [''B'']"
    by (cases "downloadMod cfg ?e (''a'', ''7'', ''B'') 3 ?w2";
        cases "fst (downloadMod cfg ?e (''a'', ''7'', ''B'') 3 ?w2)")
       (simp_all add: downloaded_outcome_def failed_outcome_def)
  show ?thesis using an eq len nm by simp
qed


section \<open>Who is probed and who is downloaded\<close>

lemma download_attempt_driver_calls:
  "driver_calls (snd (download_attempt c e m w)) = driver_calls w"
  by (cases m)
     (simp add: download_attempt_def isModInstalled_eq isModInSteamCmd_eq ensure_modsDirectory_def
        mkdirSync_def cpSync_def exec_def logError_def Let_def case_prod_beta
        split: option.split sum.split)

lemma downloadMod_driver_calls:
  "set (driver_calls (snd (downloadMod c e m r w))) = insert m (set (driver_calls w))"
proof (induction c e m r w rule: downloadMod.induct)
  case (1 c e m retryCount w0)
  let ?a = "download_attempt c e m (w0\<lparr>driver_calls := driver_calls w0 @ [m]\<rparr>)"
  have d: "driver_calls (snd ?a) = driver_calls w0 @ [m]"
    by (simp add: download_attempt_driver_calls)
  show ?case
  proof (cases "fst ?a")
    case Resolved
    then show ?thesis using d by (simp add: downloadMod_Resolved)
  next
    case (Rejected err)
    then show ?thesis using d by (simp add: downloadMod_Rejected)
  next
    case (RetryOrReject err)
    show ?thesis
    proof (cases "1 < retryCount")
      case True
      have "set (driver_calls (snd (downloadMod c e m (retryCount - 1) (setTimeout 2000 (snd ?a)))))
          = insert m (set (driver_calls (setTimeout 2000 (snd ?a))))"
        using "1.IH" [OF prod.collapse RetryOrReject True] .
      then show ?thesis
        using d by (simp add: downloadMod_Retry [OF RetryOrReject True] setTimeout_def)
    next
      case False
      then show ?thesis using d by (simp add: downloadMod_Last [OF RetryOrReject False])
    qed
  qed
qed

lemma download_loop_driver_calls:
  "set (driver_calls (snd (download_loop c e ms rs w))) = set (driver_calls w) \<union> set ms"
proof (induction ms arbitrary: rs w)
  case Nil
  show ?case by simp
next
  case (Cons m ms)
  note d = downloadMod_driver_calls [of c e m 3 w]
  show ?case
    using d
    by (cases "downloadMod c e m 3 w"; cases "fst (downloadMod c e m 3 w)")
       (auto simp: Cons.IH logError_def)
qed

lemma downloadMods_driver_calls:
  assumes "fst (analyzeMods c e mods w) = Inr (mi, nf)"
  shows "set (driver_calls (snd (downloadMods c e mods w))) \<subseteq> set (driver_calls w) \<union> set mi"
  using assms analyzeMods_frame(6) [of c e mods w]
  by (cases "analyzeMods c e mods w")
     (auto simp: downloadMods_def question_def case_prod_beta download_loop_driver_calls)

lemma analyze_loop_append:
  "analyze_loop c e (xs @ ys) acc w =
     (case analyze_loop c e xs acc w of
        (Inl err, w1) \<Rightarrow> (Inl err, w1)
      | (Inr acc1, w1) \<Rightarrow> analyze_loop c e ys acc1 w1)"
  by (induction xs arbitrary: acc w) (auto split: prod.splits sum.splits)

lemma analyzeMods_audit:
  assumes "fst (analyzeMods c e mods w) = Inr (mi, nf)"
  shows "audit (snd (analyzeMods c e mods w)) NotFoundModsFile = Some nf"
    and "audit (snd (analyzeMods c e mods w)) MissingModsFile = Some mi"
  using assms
  by (auto simp: analyzeMods_def writeModsToFile_def writeFile_def case_prod_beta
        split: sum.splits option.splits)

lemma subseq_distinct_filter_length:
  "subseq ys xs \<Longrightarrow> distinct xs \<Longrightarrow>
   length ys + length (filter (\<lambda>x. x \<notin> set ys) xs) = length xs"
proof (induction rule: list_emb.induct)
  case (list_emb_Nil ys)
  show ?case by simp
next
  case (list_emb_Cons xs ys y)
  then have "y \<notin> set xs" using list_emb_set [of "(=)" xs ys] by (auto simp: in_set_conv_nth)
  with list_emb_Cons show ?case by simp
next
  case (list_emb_Cons2 x y xs ys)
  then have "x \<notin> set ys" by simp
  then have "filter (\<lambda>z. z \<noteq> x \<and> z \<notin> set xs) ys = filter (\<lambda>z. z \<notin> set xs) ys"
    by (intro filter_cong) auto
  with list_emb_Cons2 show ?case by simp
qed

text \<open>
  Where the \<open>modId\<close>s of the input are pairwise distinct, the report has one outcome per
  mod on every path.
\<close>

lemma report_length_distinct_ids:
  assumes "distinct (map fst mods)"
  shows "length (results (fst (downloadMods c e mods w))) = length mods"
proof (cases "fst (analyzeMods c e mods w)")
  case (Inl err)
  then show ?thesis by (cases "analyzeMods c e mods w") (simp add: downloadMods_def)
next
  case (Inr r)
  obtain mi nf where r: "r = (mi, nf)" by (cases r) auto
  from Inr r have an: "fst (analyzeMods c e mods w) = Inr (mi, nf)" by simp
  have p: "(\<lambda>m. \<not> list_ex (\<lambda>mm. fst mm = fst m) mi) = (\<lambda>m. fst m \<notin> set (map fst mi))"
    by (rule ext) (auto simp: list_ex_iff image_iff)
  have "length (map fst mi) + length (filter (\<lambda>x. x \<notin> set (map fst mi)) (map fst mods))
          = length (map fst mods)"
    using subseq_distinct_filter_length [OF analyzeMods_lists(2) [OF an] assms] .
  then have cnt:
    "length mi + length (filter (\<lambda>m. \<not> list_ex (\<lambda>mm. fst mm = fst m) mi) mods) = length mods"
    unfolding p by (simp add: length_filter_map comp_def)
  show ?thesis
    using an cnt
    by (cases "analyzeMods c e mods w")
       (auto simp: downloadMods_def question_def case_prod_beta download_loop_length)
qed

lemma probes_of_ids_Nil [simp]: "probes_of_ids I []"
  by (simp add: probes_of_ids_def)

lemma probes_of_ids_append:
  "probes_of_ids I xs \<Longrightarrow> probes_of_ids I ys \<Longrightarrow> probes_of_ids I (xs @ ys)"
  unfolding probes_of_ids_def by (simp only: set_append Un_iff) blast

lemma probes_of_ids_mono:
  "I \<subseteq> J \<Longrightarrow> probes_of_ids I xs \<Longrightarrow> probes_of_ids J xs"
  unfolding probes_of_ids_def by blast

lemma calls_for_same:
  "classifier_calls w' = classifier_calls w \<Longrightarrow> driver_calls w' = driver_calls w
   \<Longrightarrow> calls_for I w w'"
  by (simp add: calls_for_def)

lemma calls_for_refl [simp]: "calls_for I w w"
  by (simp add: calls_for_same)

lemma calls_for_trans:
  assumes "calls_for I w w1" and "calls_for I w1 w2"
  shows "calls_for I w w2"
proof -
  from assms(1) obtain ps ds where
    a: "classifier_calls w1 = classifier_calls w @ ps" "probes_of_ids I ps"
       "driver_calls w1 = driver_calls w @ ds" "fst ` set ds \<subseteq> I"
    unfolding calls_for_def by blast
  from assms(2) obtain ps' ds' where
    b: "classifier_calls w2 = classifier_calls w1 @ ps'" "probes_of_ids I ps'"
       "driver_calls w2 = driver_calls w1 @ ds'" "fst ` set ds' \<subseteq> I"
    unfolding calls_for_def by blast
  have p: "classifier_calls w2 = classifier_calls w @ (ps @ ps')" using a(1) b(1) by simp
  have q: "probes_of_ids I (ps @ ps')" using a(2) b(2) by (rule probes_of_ids_append)
  have d: "driver_calls w2 = driver_calls w @ (ds @ ds')" using a(3) b(3) by simp
  have e: "fst ` set (ds @ ds') \<subseteq> I" using a(4) b(4) by auto
  show ?thesis unfolding calls_for_def using p q d e by blast
qed

lemma calls_for_mono:
  "I \<subseteq> J \<Longrightarrow> calls_for I w w' \<Longrightarrow> calls_for J w w'"
  unfolding calls_for_def using probes_of_ids_mono [of I J] by blast

lemma calls_for_new:
  assumes "calls_for I w w'"
  shows "classifier_calls w' = classifier_calls w @ new_probes w w'"
    and "probes_of_ids I (new_probes w w')"
    and "driver_calls w' = driver_calls w @ new_downloads w w'"
    and "fst ` set (new_downloads w w') \<subseteq> I"
proof -
  from assms obtain ps ds where
    a: "classifier_calls w' = classifier_calls w @ ps" "probes_of_ids I ps"
       "driver_calls w' = driver_calls w @ ds" "fst ` set ds \<subseteq> I"
    unfolding calls_for_def by blast
  have p: "new_probes w w' = ps" by (simp add: new_probes_def a(1))
  have d: "new_downloads w w' = ds" by (simp add: new_downloads_def a(3))
  show "classifier_calls w' = classifier_calls w @ new_probes w w'" by (simp add: p a(1))
  show "probes_of_ids I (new_probes w w')" by (simp add: p a(2))
  show "driver_calls w' = driver_calls w @ new_downloads w w'" by (simp add: d a(3))
  show "fst ` set (new_downloads w w') \<subseteq> I" using a(4) by (simp add: d)
qed

lemma check_presence_calls:
  "calls_for {modId} w (snd (check_presence c (modId, steamId, modName) acc w))"
  by (cases acc) (simp add: check_presence_eq calls_for_def probes_of_ids_def)

lemma analyze_mod_calls:
  "calls_for {fst m} w (snd (analyze_mod c e m acc w))"
proof -
  obtain modId steamId modName where m: "m = (modId, steamId, modName)" by (cases m) auto
  let ?w1 = "snd (findModByName c e modName w)"
  have f: "calls_for {modId} w ?w1"
    by (simp add: calls_for_same findModByName_frame)
  have g: "calls_for {modId} ?w1 (snd (check_presence c (modId, found, modName) acc ?w1))" for found
    by (rule check_presence_calls)
  have h: "calls_for {modId} w (snd (check_presence c (modId, found, modName) acc ?w1))" for found
    using f g by (rule calls_for_trans)
  show ?thesis
    using f h check_presence_calls [of modId w c steamId modName acc]
    by (cases "findModByName c e modName w")
       (auto simp: m analyze_mod_def case_prod_beta split: sum.splits option.splits)
qed

lemma analyze_loop_calls:
  "calls_for (fst ` set ms) w (snd (analyze_loop c e ms acc w))"
proof (induction ms arbitrary: acc w)
  case Nil
  show ?case by simp
next
  case (Cons m ms)
  obtain r w1 where s: "analyze_mod c e m acc w = (r, w1)" by (cases "analyze_mod c e m acc w")
  have "calls_for {fst m} w w1" using analyze_mod_calls [of m w c e acc] s by simp
  then have f1: "calls_for (fst ` set (m # ms)) w w1" by (rule calls_for_mono [rotated]) simp
  show ?case
  proof (cases r)
    case (Inl err)
    with s f1 show ?thesis by simp
  next
    case (Inr acc1)
    with s have eq: "analyze_loop c e (m # ms) acc w = analyze_loop c e ms acc1 w1" by simp
    have "calls_for (fst ` set ms) w1 (snd (analyze_loop c e ms acc1 w1))" by (rule Cons.IH)
    then have "calls_for (fst ` set (m # ms)) w1 (snd (analyze_loop c e ms acc1 w1))"
      by (rule calls_for_mono [rotated]) auto
    with f1 show ?thesis unfolding eq by (rule calls_for_trans)
  qed
qed

lemma download_attempt_probes:
  "classifier_calls (snd (download_attempt c e (modId, steamId, modName) w)) =
     classifier_calls w @
       (if fs w (modsDirectory c @ [steamId]) = Dir then [ProbeInstalled modId steamId]
        else [ProbeInstalled modId steamId, ProbeSteamCmd steamId])"
  by (simp add: download_attempt_def isModInstalled_eq isModInSteamCmd_eq ensure_modsDirectory_def
        mkdirSync_def cpSync_def exec_def logError_def Let_def case_prod_beta
        split: option.split sum.split)

lemma download_attempt_calls:
  "calls_for {fst m} w (snd (download_attempt c e m w))"
  by (cases m)
     (simp add: calls_for_def download_attempt_probes download_attempt_driver_calls
        probes_of_ids_def)

lemma downloadMod_calls:
  "calls_for {fst m} w (snd (downloadMod c e m r w))"
proof (induction c e m r w rule: downloadMod.induct)
  case (1 c e m retryCount w0)
  let ?w = "w0\<lparr>driver_calls := driver_calls w0 @ [m]\<rparr>"
  let ?a = "download_attempt c e m ?w"
  have "calls_for {fst m} w0 ?w" by (simp add: calls_for_def)
  then have d: "calls_for {fst m} w0 (snd ?a)"
    using download_attempt_calls [of m ?w c e] by (rule calls_for_trans)
  show ?case
  proof (cases "fst ?a")
    case Resolved
    then show ?thesis using d by (simp add: downloadMod_Resolved)
  next
    case (Rejected err)
    then show ?thesis using d by (simp add: downloadMod_Rejected)
  next
    case (RetryOrReject err)
    show ?thesis
    proof (cases "1 < retryCount")
      case True
      have t: "calls_for {fst m} (snd ?a) (setTimeout 2000 (snd ?a))"
        by (simp add: calls_for_same setTimeout_def)
      have "calls_for {fst m} (setTimeout 2000 (snd ?a))
              (snd (downloadMod c e m (retryCount - 1) (setTimeout 2000 (snd ?a))))"
        using "1.IH" [OF prod.collapse RetryOrReject True] .
      with d t have "calls_for {fst m} w0
              (snd (downloadMod c e m (retryCount - 1) (setTimeout 2000 (snd ?a))))"
        by (blast intro: calls_for_trans)
      then show ?thesis by (simp add: downloadMod_Retry [OF RetryOrReject True])
    next
      case False
      then show ?thesis using d by (simp add: downloadMod_Last [OF RetryOrReject False])
    qed
  qed
qed

lemma download_loop_calls:
  "calls_for (fst ` set ms) w (snd (download_loop c e ms rs w))"
proof (induction ms arbitrary: rs w)
  case Nil
  show ?case by simp
next
  case (Cons m ms)
  let ?d = "downloadMod c e m 3 w"
  have "calls_for {fst m} w (snd ?d)" by (rule downloadMod_calls)
  then have d: "calls_for (fst ` set (m # ms)) w (snd ?d)" by (rule calls_for_mono [rotated]) simp
  have step: "calls_for (fst ` set (m # ms)) w w1"
    if "calls_for (fst ` set ms) w2 w1" and "classifier_calls w2 = classifier_calls (snd ?d)"
      and "driver_calls w2 = driver_calls (snd ?d)" for w1 w2
  proof -
    have "calls_for (fst ` set (m # ms)) (snd ?d) w2" using that(2,3) by (simp add: calls_for_same)
    moreover have "calls_for (fst ` set (m # ms)) w2 w1"
      using that(1) by (rule calls_for_mono [rotated]) auto
    ultimately show ?thesis using d by (blast intro: calls_for_trans)
  qed
  show ?case
  proof (cases "fst ?d")
    case (Inl err)
    let ?w2 = "logError (fst m) (snd (snd m)) err [] (snd ?d)"
    have eq: "download_loop c e (m # ms) rs w = download_loop c e ms (rs @ [failed_outcome err m]) ?w2"
      using Inl by (cases ?d) simp
    show ?thesis unfolding eq
      by (rule step [OF Cons.IH]) (simp_all add: logError_def)
  next
    case (Inr u)
    have eq: "download_loop c e (m # ms) rs w
        = download_loop c e ms (rs @ [downloaded_outcome m]) (snd ?d)"
      using Inr by (cases ?d) simp
    show ?thesis unfolding eq
      by (rule step [OF Cons.IH]) simp_all
  qed
qed

lemma analyzeMods_same_calls:
  "classifier_calls (snd (analyzeMods c e mods w))
     = classifier_calls (snd (analyze_loop c e mods ([], []) w))"
  "driver_calls (snd (analyzeMods c e mods w))
     = driver_calls (snd (analyze_loop c e mods ([], []) w))"
  by (simp_all add: analyzeMods_def writeModsToFile_def writeFile_frame
        case_prod_beta split: sum.split)

lemma downloadMods_calls:
  assumes a: "calls_for I w (snd (analyzeMods c e mods w))"
      and b: "\<And>mi nf. fst (analyzeMods c e mods w) = Inr (mi, nf) \<Longrightarrow> fst ` set mi \<subseteq> I"
  shows "calls_for I w (snd (downloadMods c e mods w))"
proof (cases "fst (analyzeMods c e mods w)")
  case (Inl err)
  then show ?thesis using a by (cases "analyzeMods c e mods w") (simp add: downloadMods_def)
next
  case (Inr r)
  obtain mi nf where r: "r = (mi, nf)" by (cases r) auto
  let ?w1 = "snd (analyzeMods c e mods w)"
  let ?w2 = "snd (question e ?w1)"
  from Inr r have an: "fst (analyzeMods c e mods w) = Inr (mi, nf)" by simp
  have q: "calls_for I ?w1 ?w2" by (simp add: calls_for_same question_def)
  have "calls_for (fst ` set mi) ?w2 (snd (download_loop c e mi [] ?w2))"
    by (rule download_loop_calls)
  then have l: "calls_for I ?w2 (snd (download_loop c e mi [] ?w2))"
    using b [OF an] by (rule calls_for_mono [rotated])
  have q': "calls_for I w ?w2" using a q by (rule calls_for_trans)
  have l': "calls_for I w (snd (download_loop c e mi [] ?w2))" using q' l by (rule calls_for_trans)
  show ?thesis
    using an a q' l'
    by (cases "analyzeMods c e mods w")
       (simp add: downloadMods_def case_prod_beta question_def)
qed

lemma download_attempt_audit:
  "audit (snd (download_attempt c e m w)) = audit w"
  by (cases m)
     (simp add: download_attempt_def isModInstalled_eq isModInSteamCmd_eq ensure_modsDirectory_def
        mkdirSync_def cpSync_def exec_def logError_def Let_def case_prod_beta
        split: option.split sum.split)

lemma downloadMod_audit:
  "audit (snd (downloadMod c e m r w)) = audit w"
proof (induction c e m r w rule: downloadMod.induct)
  case (1 c e m retryCount w0)
  let ?a = "download_attempt c e m (w0\<lparr>driver_calls := driver_calls w0 @ [m]\<rparr>)"
  have d: "audit (snd ?a) = audit w0"
    by (simp add: download_attempt_audit)
  show ?case
  proof (cases "fst ?a")
    case Resolved
    then show ?thesis using d by (simp add: downloadMod_Resolved)
  next
    case (Rejected err)
    then show ?thesis using d by (simp add: downloadMod_Rejected)
  next
    case (RetryOrReject err)
    show ?thesis
    proof (cases "1 < retryCount")
      case True
      have "audit (snd (downloadMod c e m (retryCount - 1) (setTimeout 2000 (snd ?a))))
          = audit (setTimeout 2000 (snd ?a))"
        using "1.IH" [OF prod.collapse RetryOrReject True] .
      then show ?thesis
        using d by (simp add: downloadMod_Retry [OF RetryOrReject True] setTimeout_def)
    next
      case False
      then show ?thesis using d by (simp add: downloadMod_Last [OF RetryOrReject False])
    qed
  qed
qed

lemma download_loop_audit:
  "audit (snd (download_loop c e ms rs w)) = audit w"
proof (induction ms arbitrary: rs w)
  case Nil
  show ?case by simp
next
  case (Cons m ms)
  note d = downloadMod_audit [of c e m 3 w]
  show ?case
    using d
    by (cases "downloadMod c e m 3 w"; cases "fst (downloadMod c e m 3 w)")
       (auto simp: Cons.IH logError_def)
qed

lemma downloadMods_audit:
  "audit (snd (downloadMods c e mods w)) = audit (snd (analyzeMods c e mods w))"
  by (cases "analyzeMods c e mods w"; cases "fst (analyzeMods c e mods w)")
     (auto simp: downloadMods_def question_def case_prod_beta download_loop_audit)


lemma calls_for_cong:
  "calls_for I w w1 \<Longrightarrow> classifier_calls w1' = classifier_calls w1
   \<Longrightarrow> driver_calls w1' = driver_calls w1 \<Longrightarrow> calls_for I w w1'"
  by (simp add: calls_for_def)

lemma probes_of_ids_installed:
  "probes_of_ids I ps \<Longrightarrow> ProbeInstalled a s \<in> set ps \<Longrightarrow> a \<in> I"
  unfolding probes_of_ids_def by blast

lemma probes_of_ids_steamcmd:
  "probes_of_ids I ps \<Longrightarrow> ProbeSteamCmd s \<in> set ps
   \<Longrightarrow> \<exists>a. a \<in> I \<and> ProbeInstalled a s \<in> set ps"
  unfolding probes_of_ids_def by blast

lemma subseq_set_subset:
  "subseq xs ys \<Longrightarrow> set xs \<subseteq> set ys"
  by (induction rule: list_emb.induct) auto






end
